theory Spec2Isabelle
  imports Complex_Main
begin

section \<open>Data model of \<open>Sequoia.py\<close>\<close>

text \<open>
  The controller is the class \<open>PixhawkSequoiaTrigger\<close>. Its attributes become the fields of
  a record; the dictionary \<open>self.stats\<close>, whose four keys are created in \<open>__init__\<close> and
  never added to or removed, is a record of its own. Python integers are \<open>int\<close>. The values
  of \<open>time.time()\<close> and the other floats are idealised as rationals (\<open>0.1\<close> is \<open>1/10\<close>),
  so no rounding is modelled.

  What the program does to the outside world is kept in four trace fields of the state:
  \<^item> \<open>logged\<close>: the calls of \<open>logger\<close>, one constructor of \<open>log_msg\<close> per format string;
  \<^item> \<open>led\<close>: the level last written to the status pin by \<open>set_status_led\<close> or \<open>setup_gpio\<close>;
  \<^item> \<open>signals\<close>: the blink threads started by \<open>blink_status_led\<close>, as (times, delay);
  \<^item> \<open>commands\<close>: the argument lists given to \<open>subprocess.run\<close>.
  The logger and \<open>GPIO.output\<close> are taken not to raise. \<open>Thread.start\<close> may raise where
  \<open>blink_status_led\<close> is called from \<open>execute_capture\<close>; during construction it is taken
  to succeed.
\<close>

datatype level = Info | Warning | Error

datatype log_msg =
    PhotoDirectory string
  | DirectoryError
  | GpioConfigured int
  | GpioError
  | ProbingCamera
  | CameraDetected
  | CameraNotDetected
  | CameraProbeTimeout
  | CameraProbeError
  | TriggerIgnored int
  | TriggerDetected int int
  | CaptureStarted int string
  | CaptureOkSized int string rat rat
  | CaptureOk int string rat
  | CaptureFailed int rat
  | GphotoError string
  | CaptureTimeout int rat
  | CaptureUnexpected int
  | StatsSaveError

record stats =
  total_triggers :: int
  successful_captures :: int
  failed_captures :: int
  session_start :: string

record controller =
  trigger_pin :: int
  status_led_pin :: "int option"
  capture_count :: int
  last_trigger_time :: rat
  is_capturing :: bool
  session_start_time :: rat
  photo_directory :: string
  debounce_time :: rat
  capture_timeout :: rat
  stats :: stats
  led :: bool
  signals :: "(nat \<times> rat) list"
  commands :: "string list list"
  logged :: "(level \<times> log_msg) list"

section \<open>Logging and the status indicator\<close>

definition logger :: "level \<Rightarrow> log_msg \<Rightarrow> controller \<Rightarrow> controller" where
  "logger l m s = s\<lparr>logged := logged s @ [(l, m)]\<rparr>"

text \<open>\<open>if self.status_led_pin:\<close> is false for \<open>None\<close> and for pin \<open>0\<close>.\<close>

definition led_enabled :: "controller \<Rightarrow> bool" where
  "led_enabled s = (case status_led_pin s of None \<Rightarrow> False | Some p \<Rightarrow> p \<noteq> 0)"

definition set_status_led :: "bool \<Rightarrow> controller \<Rightarrow> controller" where
  "set_status_led state s = (if led_enabled s then s\<lparr>led := state\<rparr> else s)"

definition subprocess_run :: "string list \<Rightarrow> controller \<Rightarrow> controller" where
  "subprocess_run argv s = s\<lparr>commands := commands s @ [argv]\<rparr>"

definition blink_status_led :: "nat \<Rightarrow> rat \<Rightarrow> controller \<Rightarrow> controller" where
  "blink_status_led n delay s =
     (if \<not> led_enabled s then s else s\<lparr>signals := signals s @ [(n, delay)]\<rparr>)"

section \<open>The trigger callback\<close>

text \<open>
  \<open>pixhawk_trigger_callback\<close> reads the clock once (\<open>current_time\<close>) and either returns early
  or starts a thread running \<open>execute_capture\<close> with the trigger number. The second component
  of the result is the argument of the thread it started, \<open>None\<close> when it started none.
\<close>

definition pixhawk_trigger_callback ::
  "rat \<Rightarrow> int \<Rightarrow> controller \<Rightarrow> controller \<times> int option" where
  "pixhawk_trigger_callback current_time channel s =
     (if current_time - last_trigger_time s < debounce_time s then (s, None)
      else
        let s1 = s\<lparr>last_trigger_time := current_time\<rparr>;
            s2 = s1\<lparr>stats := (stats s1)\<lparr>total_triggers := total_triggers (stats s1) + 1\<rparr>\<rparr>
        in if is_capturing s2
           then (logger Warning (TriggerIgnored (total_triggers (stats s2))) s2, None)
           else
             let s3 = logger Info (TriggerDetected (total_triggers (stats s2)) channel) s2;
                 s4 = set_status_led True s3
             in (s4, Some (total_triggers (stats s4))))"

section \<open>One capture attempt\<close>

text \<open>
  What \<open>execute_capture\<close> reads from outside the program is given as a record: the
  formatted timestamp, how \<open>subprocess.run\<close> ended, what \<open>os.path.getsize\<close> returned
  (\<open>None\<close> when it raised), the elapsed time \<open>time.time() - start_time\<close>, and whether
  \<open>Thread.start\<close> succeeds in the call of \<open>blink_status_led\<close> made inside the \<open>try\<close>
  block (lines 208 and 217) and in the one made inside a handler (lines 222 and 227).
  \<open>Raised\<close> stands for any exception of \<open>subprocess.run\<close> other than \<open>TimeoutExpired\<close>.
\<close>

datatype run_result = Completed int string | TimeoutExpired | Raised

record capture_env =
  now_stamp :: string
  run_outcome :: run_result
  getsize :: "nat option"
  capture_time :: rat
  try_blink_starts :: bool
  handler_blink_starts :: bool

text \<open>The digits of \<open>f"{n:05d}"\<close>: sign first, zero padded to five characters.\<close>

definition digit_char :: "nat \<Rightarrow> char" where
  "digit_char d = char_of (48 + d)"

fun decimal :: "nat \<Rightarrow> string" where
  "decimal n = (if n < 10 then [digit_char n] else decimal (n div 10) @ [digit_char (n mod 10)])"

declare decimal.simps [simp del]

definition zero_pad :: "nat \<Rightarrow> string \<Rightarrow> string" where
  "zero_pad w ds = replicate (w - length ds) (CHR ''0'') @ ds"

definition fmt_05d :: "int \<Rightarrow> string" where
  "fmt_05d n = (if n < 0 then CHR ''-'' # zero_pad 4 (decimal (nat (- n)))
                else zero_pad 5 (decimal (nat n)))"

text \<open>\<open>os.path.join\<close> of two components on POSIX.\<close>

definition path_join :: "string \<Rightarrow> string \<Rightarrow> string" where
  "path_join a b =
     (if b \<noteq> [] \<and> hd b = CHR ''/'' then b
      else if a = [] \<or> last a = CHR ''/'' then a @ b
      else a @ ''/'' @ b)"

definition capture_filename :: "capture_env \<Rightarrow> int \<Rightarrow> string" where
  "capture_filename env trigger_number =
     ''aerial_'' @ now_stamp env @ ''_T'' @ fmt_05d trigger_number @ ''.jpg''"

text \<open>
  \<open>blink_status_led\<close> where \<open>Thread.start\<close> may fail: \<open>None\<close> is the \<open>RuntimeError\<close> it then
  raises. Without a status pin the method returns before it creates a thread.
\<close>

definition blink_status_led_start :: "bool \<Rightarrow> nat \<Rightarrow> rat \<Rightarrow> controller \<Rightarrow> controller option" where
  "blink_status_led_start starts n delay s =
     (if \<not> led_enabled s then Some s
      else if starts then Some (s\<lparr>signals := signals s @ [(n, delay)]\<rparr>)
      else None)"

text \<open>
  \<open>execute_capture\<close> in the order of the source. The exception that leaves the \<open>try\<close>
  block, if any, selects the handler; lines 194 to 217 are inside the \<open>try\<close>, so an
  exception raised after a counter was incremented reaches \<open>except Exception\<close> as well.
  An exception raised inside a handler propagates out of \<open>execute_capture\<close> after the
  \<open>finally\<close> block has run.
\<close>

datatype exc = TimeoutExc | OtherExc

definition execute_capture_begin :: "controller \<Rightarrow> controller" where
  "execute_capture_begin s = s\<lparr>is_capturing := True\<rparr>"

definition execute_capture_launch :: "int \<Rightarrow> capture_env \<Rightarrow> controller \<Rightarrow> controller" where
  "execute_capture_launch trigger_number env s =
     (let filename = capture_filename env trigger_number;
          filepath = path_join (photo_directory s) filename;
          s0 = logger Info (CaptureStarted trigger_number filename) s
      in subprocess_run [''gphoto2'', ''--capture-image-and-download'',
           ''--filename'', filepath, ''--force-overwrite''] s0)"

definition log_success :: "int \<Rightarrow> capture_env \<Rightarrow> controller \<Rightarrow> controller" where
  "log_success trigger_number env s =
     (case getsize env of
        Some bytes \<Rightarrow>
          logger Info (CaptureOkSized trigger_number (capture_filename env trigger_number)
            (of_nat bytes / 1024 / 1024) (capture_time env)) s
      | None \<Rightarrow>
          logger Info (CaptureOk trigger_number (capture_filename env trigger_number)
            (capture_time env)) s)"

definition log_failure :: "int \<Rightarrow> capture_env \<Rightarrow> string \<Rightarrow> controller \<Rightarrow> controller" where
  "log_failure trigger_number env stderr s =
     logger Error (GphotoError stderr)
       (logger Error (CaptureFailed trigger_number (capture_time env)) s)"

definition execute_capture_try ::
  "int \<Rightarrow> capture_env \<Rightarrow> controller \<Rightarrow> controller \<times> exc option" where
  "execute_capture_try trigger_number env s =
     (let s1 = execute_capture_launch trigger_number env s
      in case run_outcome env of
           Completed returncode stderr \<Rightarrow>
             if returncode = 0 then
               let s2 = s1\<lparr>capture_count := capture_count s1 + 1\<rparr>;
                   s3 = s2\<lparr>stats := (stats s2)
                          \<lparr>successful_captures := successful_captures (stats s2) + 1\<rparr>\<rparr>;
                   s4 = log_success trigger_number env s3
               in case blink_status_led_start (try_blink_starts env) 1 (1 / 10) s4 of
                    Some s5 \<Rightarrow> (s5, None)
                  | None \<Rightarrow> (s4, Some OtherExc)
             else
               let s2 = s1\<lparr>stats := (stats s1)
                          \<lparr>failed_captures := failed_captures (stats s1) + 1\<rparr>\<rparr>;
                   s3 = log_failure trigger_number env stderr s2
               in case blink_status_led_start (try_blink_starts env) 3 (1 / 10) s3 of
                    Some s4 \<Rightarrow> (s4, None)
                  | None \<Rightarrow> (s3, Some OtherExc)
         | TimeoutExpired \<Rightarrow> (s1, Some TimeoutExc)
         | Raised \<Rightarrow> (s1, Some OtherExc))"

text \<open>The second component says whether an exception leaves the handler.\<close>

definition execute_capture_except ::
  "int \<Rightarrow> capture_env \<Rightarrow> controller \<times> exc option \<Rightarrow> controller \<times> bool" where
  "execute_capture_except trigger_number env r =
     (case r of
        (s, None) \<Rightarrow> (s, False)
      | (s, Some TimeoutExc) \<Rightarrow>
          let s2 = s\<lparr>stats := (stats s)
                     \<lparr>failed_captures := failed_captures (stats s) + 1\<rparr>\<rparr>;
              s3 = logger Error (CaptureTimeout trigger_number (capture_timeout s2)) s2
          in (case blink_status_led_start (handler_blink_starts env) 5 (1 / 10) s3 of
                Some s4 \<Rightarrow> (s4, False)
              | None \<Rightarrow> (s3, True))
      | (s, Some OtherExc) \<Rightarrow>
          let s2 = s\<lparr>stats := (stats s)
                     \<lparr>failed_captures := failed_captures (stats s) + 1\<rparr>\<rparr>;
              s3 = logger Error (CaptureUnexpected trigger_number) s2
          in (case blink_status_led_start (handler_blink_starts env) 3 (1 / 10) s3 of
                Some s4 \<Rightarrow> (s4, False)
              | None \<Rightarrow> (s3, True)))"

definition execute_capture_finally :: "controller \<Rightarrow> controller" where
  "execute_capture_finally s = set_status_led False (s\<lparr>is_capturing := False\<rparr>)"

definition execute_capture :: "int \<Rightarrow> capture_env \<Rightarrow> controller \<Rightarrow> controller" where
  "execute_capture trigger_number env s =
     execute_capture_finally
       (fst (execute_capture_except trigger_number env
          (execute_capture_try trigger_number env (execute_capture_begin s))))"

definition execute_capture_propagates :: "int \<Rightarrow> capture_env \<Rightarrow> controller \<Rightarrow> bool" where
  "execute_capture_propagates trigger_number env s =
     snd (execute_capture_except trigger_number env
        (execute_capture_try trigger_number env (execute_capture_begin s)))"

section \<open>Construction\<close>

text \<open>
  \<open>__init__\<close> sets the attributes and then runs the three set-up methods, each of which
  catches its own exceptions. Whether \<open>os.makedirs\<close> and the GPIO calls succeed, and how
  the probe \<open>gphoto2 --auto-detect\<close> ended, are inputs.
\<close>

datatype probe_result = ProbeOutput string | ProbeTimeout | ProbeRaised

record init_env =
  session_now :: rat
  session_iso :: string
  makedirs_ok :: bool
  gpio_ok :: bool
  probe :: probe_result

fun contains :: "string \<Rightarrow> string \<Rightarrow> bool" where
  "contains pat [] = (pat = [])"
| "contains pat (c # cs) = (take (length pat) (c # cs) = pat \<or> contains pat cs)"

definition setup_directories :: "init_env \<Rightarrow> controller \<Rightarrow> controller" where
  "setup_directories env s =
     (if makedirs_ok env then logger Info (PhotoDirectory (photo_directory s)) s
      else logger Error DirectoryError s)"

definition setup_gpio :: "init_env \<Rightarrow> controller \<Rightarrow> controller" where
  "setup_gpio env s =
     (if gpio_ok env then
        let s1 = (if led_enabled s then s\<lparr>led := False\<rparr> else s);
            s2 = logger Info (GpioConfigured (trigger_pin s1)) s1
        in blink_status_led 3 (1 / 5) s2
      else logger Error GpioError s)"

definition test_camera_connection :: "init_env \<Rightarrow> controller \<Rightarrow> controller \<times> bool" where
  "test_camera_connection env s =
     (let s1 = logger Info ProbingCamera s;
          s2 = subprocess_run [''gphoto2'', ''--auto-detect''] s1
      in case probe env of
           ProbeOutput stdout \<Rightarrow>
             if contains ''Parrot'' stdout \<or> contains ''Sequoia'' stdout
             then (blink_status_led 2 (1 / 2) (logger Info CameraDetected s2), True)
             else (logger Warning CameraNotDetected s2, False)
         | ProbeTimeout \<Rightarrow> (logger Error CameraProbeTimeout s2, False)
         | ProbeRaised \<Rightarrow> (logger Error CameraProbeError s2, False))"

definition init :: "int \<Rightarrow> int option \<Rightarrow> init_env \<Rightarrow> controller" where
  "init trigger_pin0 status_led_pin0 env =
     (let s = \<lparr>trigger_pin = trigger_pin0,
                 status_led_pin = status_led_pin0,
                 capture_count = 0,
                 last_trigger_time = 0,
                 is_capturing = False,
                 session_start_time = session_now env,
                 photo_directory = ''/home/pi/aerial_photos'',
                 debounce_time = 1 / 10,
                 capture_timeout = 30,
                 stats = \<lparr>total_triggers = 0, successful_captures = 0,
                           failed_captures = 0, session_start = session_iso env\<rparr>,
                 led = False, signals = [], commands = [], logged = []\<rparr>
      in fst (test_camera_connection env (setup_gpio env (setup_directories env s))))"

section \<open>Statistics\<close>

text \<open>
  The dictionary returned by \<open>get_statistics\<close> is the list of its items in insertion order:
  the four items of \<open>self.stats\<close>, then the three added keys. All seven keys differ, so
  no item replaces another.
\<close>

datatype pyval = PInt int | PFloat rat | PStr string

definition stats_items :: "stats \<Rightarrow> (string \<times> pyval) list" where
  "stats_items st =
     [(''total_triggers'', PInt (total_triggers st)),
      (''successful_captures'', PInt (successful_captures st)),
      (''failed_captures'', PInt (failed_captures st)),
      (''session_start'', PStr (session_start st))]"

definition get_statistics :: "rat \<Rightarrow> controller \<Rightarrow> (string \<times> pyval) list" where
  "get_statistics now s =
     (let uptime = now - session_start_time s;
          success_rate =
            (of_int (successful_captures (stats s)) / of_int (max (total_triggers (stats s)) 1))
              * 100
      in stats_items (stats s) @
         [(''uptime_seconds'', PFloat uptime),
          (''success_rate_percent'', PFloat success_rate),
          (''current_status'', PStr (if is_capturing s then ''capturing'' else ''ready''))])"

text \<open>
  \<open>save_statistics\<close> writes the dictionary to \<open>session_stats.json\<close> in the photo directory.
  The result is the state and the file written (path and document), or, when opening or
  writing raised, the state with the error logged and no file.
\<close>

definition save_statistics ::
  "rat \<Rightarrow> bool \<Rightarrow> controller \<Rightarrow> controller \<times> (string \<times> (string \<times> pyval) list) option" where
  "save_statistics now write_ok s =
     (let stats_file = path_join (photo_directory s) ''session_stats.json''
      in if write_ok then (s, Some (stats_file, get_statistics now s))
         else (logger Error StatsSaveError s, None))"

section \<open>Threads\<close>

text \<open>
  The callback runs on the edge-detection thread (or the session loop, through
  \<open>test_trigger\<close>) and every accepted, non-busy edge starts a worker thread running
  \<open>execute_capture\<close>. A worker runs \<open>execute_capture\<close> one statement at a time, and other
  threads may run between any two of its statements. Its position is the line it will run
  next; an augmented assignment \<open>x += 1\<close> is two steps, the read of \<open>x\<close> into the worker's
  own register and the write of the register plus one.
\<close>

datatype pc =
    L185_wait
  | L196_read | L196_write | L197_read | L197_write | L200_log | L208_blink
  | L212_read | L212_write | L213_log | L217_blink
  | L220_read | L220_write | L221_log | L222_blink
  | L225_read | L225_write | L226_log | L227_blink
  | L230_latch | L231_led

record worker =
  wid :: int
  wenv :: capture_env
  pc :: pc
  reg :: int

text \<open>
  One step of a worker: the worker afterwards (\<open>None\<close> when the thread has ended) and the
  controller afterwards. At \<open>L185_wait\<close> the external command returns or raises.
\<close>

definition worker_step :: "worker \<Rightarrow> controller \<Rightarrow> worker option \<times> controller" where
  "worker_step w s =
     (case pc w of
        L185_wait \<Rightarrow>
          (Some (w\<lparr>pc := (case run_outcome (wenv w) of
                              Completed returncode stderr \<Rightarrow>
                                if returncode = 0 then L196_read else L212_read
                            | TimeoutExpired \<Rightarrow> L220_read
                            | Raised \<Rightarrow> L225_read)\<rparr>), s)
      | L196_read \<Rightarrow> (Some (w\<lparr>pc := L196_write, reg := capture_count s\<rparr>), s)
      | L196_write \<Rightarrow> (Some (w\<lparr>pc := L197_read\<rparr>), s\<lparr>capture_count := reg w + 1\<rparr>)
      | L197_read \<Rightarrow>
          (Some (w\<lparr>pc := L197_write, reg := successful_captures (stats s)\<rparr>), s)
      | L197_write \<Rightarrow>
          (Some (w\<lparr>pc := L200_log\<rparr>),
           s\<lparr>stats := (stats s)\<lparr>successful_captures := reg w + 1\<rparr>\<rparr>)
      | L200_log \<Rightarrow> (Some (w\<lparr>pc := L208_blink\<rparr>), log_success (wid w) (wenv w) s)
      | L208_blink \<Rightarrow>
          (case blink_status_led_start (try_blink_starts (wenv w)) 1 (1 / 10) s of
             Some s' \<Rightarrow> (Some (w\<lparr>pc := L230_latch\<rparr>), s')
           | None \<Rightarrow> (Some (w\<lparr>pc := L225_read\<rparr>), s))
      | L212_read \<Rightarrow> (Some (w\<lparr>pc := L212_write, reg := failed_captures (stats s)\<rparr>), s)
      | L212_write \<Rightarrow>
          (Some (w\<lparr>pc := L213_log\<rparr>),
           s\<lparr>stats := (stats s)\<lparr>failed_captures := reg w + 1\<rparr>\<rparr>)
      | L213_log \<Rightarrow>
          (Some (w\<lparr>pc := L217_blink\<rparr>),
           log_failure (wid w) (wenv w)
             (case run_outcome (wenv w) of Completed returncode stderr \<Rightarrow> stderr | _ \<Rightarrow> [])
             s)
      | L217_blink \<Rightarrow>
          (case blink_status_led_start (try_blink_starts (wenv w)) 3 (1 / 10) s of
             Some s' \<Rightarrow> (Some (w\<lparr>pc := L230_latch\<rparr>), s')
           | None \<Rightarrow> (Some (w\<lparr>pc := L225_read\<rparr>), s))
      | L220_read \<Rightarrow> (Some (w\<lparr>pc := L220_write, reg := failed_captures (stats s)\<rparr>), s)
      | L220_write \<Rightarrow>
          (Some (w\<lparr>pc := L221_log\<rparr>),
           s\<lparr>stats := (stats s)\<lparr>failed_captures := reg w + 1\<rparr>\<rparr>)
      | L221_log \<Rightarrow>
          (Some (w\<lparr>pc := L222_blink\<rparr>),
           logger Error (CaptureTimeout (wid w) (capture_timeout s)) s)
      | L222_blink \<Rightarrow>
          (case blink_status_led_start (handler_blink_starts (wenv w)) 5 (1 / 10) s of
             Some s' \<Rightarrow> (Some (w\<lparr>pc := L230_latch\<rparr>), s')
           | None \<Rightarrow> (Some (w\<lparr>pc := L230_latch\<rparr>), s))
      | L225_read \<Rightarrow> (Some (w\<lparr>pc := L225_write, reg := failed_captures (stats s)\<rparr>), s)
      | L225_write \<Rightarrow>
          (Some (w\<lparr>pc := L226_log\<rparr>),
           s\<lparr>stats := (stats s)\<lparr>failed_captures := reg w + 1\<rparr>\<rparr>)
      | L226_log \<Rightarrow>
          (Some (w\<lparr>pc := L227_blink\<rparr>), logger Error (CaptureUnexpected (wid w)) s)
      | L227_blink \<Rightarrow>
          (case blink_status_led_start (handler_blink_starts (wenv w)) 3 (1 / 10) s of
             Some s' \<Rightarrow> (Some (w\<lparr>pc := L230_latch\<rparr>), s')
           | None \<Rightarrow> (Some (w\<lparr>pc := L230_latch\<rparr>), s))
      | L230_latch \<Rightarrow> (Some (w\<lparr>pc := L231_led\<rparr>), s\<lparr>is_capturing := False\<rparr>)
      | L231_led \<Rightarrow> (None, set_status_led False s))"

text \<open>
  The system state is the controller object together with the worker threads: those that
  were started and have not yet run line 173 (\<open>pending\<close>), those that have run it and not
  yet lines 174 to 190 (\<open>started\<close>), and those that have called the external command, each
  at its line (\<open>running\<close>). Threads are named by their trigger number. A schedule is a list
  of events; \<open>step\<close> is \<open>None\<close> for an event that cannot happen in the state. \<open>Edge\<close> is a
  whole callback, \<open>Start\<close> is line 173, \<open>Launch\<close> is lines 174 to 190 up to the call of
  the command (with what this attempt is going to read from outside), \<open>Work\<close> is the next
  step of a worker, \<open>Save\<close> is a whole \<open>save_statistics\<close>.
\<close>

record system =
  ctl :: controller
  pending :: "int list"
  started :: "int list"
  running :: "worker list"

datatype event =
    Edge rat int
  | Start int
  | Launch int capture_env
  | Work int
  | Save rat bool

fun step :: "event \<Rightarrow> system \<Rightarrow> system option" where
  "step (Edge t channel) \<sigma> =
     (case pixhawk_trigger_callback t channel (ctl \<sigma>) of
        (s', dispatched) \<Rightarrow>
          Some (\<sigma>\<lparr>ctl := s',
                   pending := pending \<sigma> @ (case dispatched of None \<Rightarrow> [] | Some n \<Rightarrow> [n])\<rparr>))"
| "step (Start n) \<sigma> =
     (if n \<in> set (pending \<sigma>)
      then Some (\<sigma>\<lparr>ctl := execute_capture_begin (ctl \<sigma>),
                    pending := remove1 n (pending \<sigma>),
                    started := started \<sigma> @ [n]\<rparr>)
      else None)"
| "step (Launch n env) \<sigma> =
     (if n \<in> set (started \<sigma>)
      then Some (\<sigma>\<lparr>ctl := execute_capture_launch n env (ctl \<sigma>),
                    started := remove1 n (started \<sigma>),
                    running := running \<sigma> @ [\<lparr>wid = n, wenv = env, pc = L185_wait, reg = 0\<rparr>]\<rparr>)
      else None)"
| "step (Work n) \<sigma> =
     (case find (\<lambda>w. wid w = n) (running \<sigma>) of
        None \<Rightarrow> None
      | Some w \<Rightarrow>
          (case worker_step w (ctl \<sigma>) of
             (w', s') \<Rightarrow>
               Some (\<sigma>\<lparr>ctl := s',
                        running := (case w' of None \<Rightarrow> [] | Some w2 \<Rightarrow> [w2])
                                     @ remove1 w (running \<sigma>)\<rparr>)))"
| "step (Save now write_ok) \<sigma> =
     Some (\<sigma>\<lparr>ctl := fst (save_statistics now write_ok (ctl \<sigma>))\<rparr>)"

fun run_events :: "event list \<Rightarrow> system \<Rightarrow> system option" where
  "run_events [] \<sigma> = Some \<sigma>"
| "run_events (e # es) \<sigma> =
     (case step e \<sigma> of None \<Rightarrow> None | Some \<sigma>' \<Rightarrow> run_events es \<sigma>')"

definition boot :: "int \<Rightarrow> int option \<Rightarrow> init_env \<Rightarrow> system" where
  "boot trigger_pin0 status_led_pin0 env =
     \<lparr>ctl = init trigger_pin0 status_led_pin0 env, pending = [], started = [], running = []\<rparr>"

text \<open>
  A worker alone: its steps one after the other, with nothing in between. Thirteen steps
  take a worker from the call of the command to its end on every path.
\<close>

fun drain :: "nat \<Rightarrow> worker \<Rightarrow> controller \<Rightarrow> controller" where
  "drain 0 w s = s"
| "drain (Suc k) w s =
     (case worker_step w s of (None, s') \<Rightarrow> s' | (Some w', s') \<Rightarrow> drain k w' s')"

text \<open>What can be seen of the threads, and the four counters.\<close>

definition in_flight :: "system \<Rightarrow> nat" where
  "in_flight \<sigma> = length (pending \<sigma>) + length (started \<sigma>) + length (running \<sigma>)"

definition latched :: "system \<Rightarrow> bool" where
  "latched \<sigma> \<longleftrightarrow> started \<sigma> \<noteq> [] \<or> list_ex (\<lambda>w. pc w \<noteq> L231_led) (running \<sigma>)"

definition between_increments :: "system \<Rightarrow> bool" where
  "between_increments \<sigma> \<longleftrightarrow>
     list_ex (\<lambda>w. pc w = L197_read \<or> pc w = L197_write) (running \<sigma>)"

definition observe :: "system \<Rightarrow> bool \<times> int list \<times> int list \<times> (int \<times> pc) list" where
  "observe \<sigma> =
     (is_capturing (ctl \<sigma>), pending \<sigma>, started \<sigma>, map (\<lambda>w. (wid w, pc w)) (running \<sigma>))"

definition counters :: "system \<Rightarrow> int \<times> int \<times> int \<times> int" where
  "counters \<sigma> =
     (capture_count (ctl \<sigma>), total_triggers (stats (ctl \<sigma>)),
      successful_captures (stats (ctl \<sigma>)), failed_captures (stats (ctl \<sigma>)))"

text \<open>
  A schedule is orderly when no callback runs while a worker thread has been started and
  has not yet run line 173, or has run line 230 and not yet line 231.
\<close>

definition quiet :: "system \<Rightarrow> bool" where
  "quiet \<sigma> \<longleftrightarrow> pending \<sigma> = [] \<and> \<not> list_ex (\<lambda>w. pc w = L231_led) (running \<sigma>)"

fun orderly :: "event list \<Rightarrow> system \<Rightarrow> bool" where
  "orderly [] \<sigma> = True"
| "orderly (e # es) \<sigma> =
     ((case e of Edge t channel \<Rightarrow> quiet \<sigma> | _ \<Rightarrow> True) \<and>
      (case step e \<sigma> of None \<Rightarrow> False | Some \<sigma>' \<Rightarrow> orderly es \<sigma>'))"

definition triggers_first :: "system \<Rightarrow> bool" where
  "triggers_first \<sigma> \<longleftrightarrow>
     0 \<le> total_triggers (stats (ctl \<sigma>)) \<and>
     (total_triggers (stats (ctl \<sigma>)) = 0 \<longrightarrow>
        successful_captures (stats (ctl \<sigma>)) = 0 \<and>
        pending \<sigma> = [] \<and> started \<sigma> = [] \<and> running \<sigma> = [])"

definition single_flight :: "system \<Rightarrow> bool" where
  "single_flight \<sigma> \<longleftrightarrow> in_flight \<sigma> \<le> 1 \<and> (is_capturing (ctl \<sigma>) \<longleftrightarrow> latched \<sigma>)"

text \<open>
  What a worker at a given line knows of the two counters of lines 196 and 197, when it is
  the only worker.
\<close>

definition in_step :: "worker \<Rightarrow> controller \<Rightarrow> bool" where
  "in_step w s =
     (case pc w of
        L196_write \<Rightarrow>
          reg w = capture_count s \<and> capture_count s = successful_captures (stats s)
      | L197_read \<Rightarrow> capture_count s = successful_captures (stats s) + 1
      | L197_write \<Rightarrow>
          reg w = successful_captures (stats s) \<and>
          capture_count s = successful_captures (stats s) + 1
      | _ \<Rightarrow> capture_count s = successful_captures (stats s))"

definition tracking :: "system \<Rightarrow> bool" where
  "tracking \<sigma> \<longleftrightarrow>
     (running \<sigma> = [] \<longrightarrow>
        capture_count (ctl \<sigma>) = successful_captures (stats (ctl \<sigma>))) \<and>
     list_all (\<lambda>w. in_step w (ctl \<sigma>)) (running \<sigma>)"

text \<open>Concrete inputs for the examples.\<close>

definition env0 :: init_env where
  "env0 = \<lparr>session_now = 1700000000, session_iso = ''2023-11-14T22:13:20'',
            makedirs_ok = True, gpio_ok = True, probe = ProbeOutput ''Parrot Sequoia''\<rparr>"

definition ctl0 :: controller where
  "ctl0 = init 18 (Some 24) env0"

definition boot0 :: system where
  "boot0 = boot 18 (Some 24) env0"

definition cap_ok :: capture_env where
  "cap_ok = \<lparr>now_stamp = ''20231114_221400'', run_outcome = Completed 0 [],
              getsize = Some 3145728, capture_time = 2,
              try_blink_starts = True, handler_blink_starts = True\<rparr>"


definition cap_fail :: capture_env where
  "cap_fail = \<lparr>now_stamp = ''20231114_221400'', run_outcome = Completed 1 ''no camera'',
                getsize = None, capture_time = 1,
                try_blink_starts = True, handler_blink_starts = True\<rparr>"

definition cap_timeout :: capture_env where
  "cap_timeout = \<lparr>now_stamp = ''20231114_221400'', run_outcome = TimeoutExpired,
                   getsize = None, capture_time = 30,
                   try_blink_starts = True, handler_blink_starts = True\<rparr>"

definition cap_raised :: capture_env where
  "cap_raised = \<lparr>now_stamp = ''20231114_221400'', run_outcome = Raised,
                  getsize = None, capture_time = 0,
                  try_blink_starts = True, handler_blink_starts = True\<rparr>"


definition ctl1 :: controller where
  "ctl1 = fst (pixhawk_trigger_callback 1700000100 18 ctl0)"

definition ctl_busy :: controller where
  "ctl_busy = execute_capture_begin ctl1"

definition ctl_half :: controller where
  "ctl_half = execute_capture_finally (fst (execute_capture_except 1 cap_ok
                (execute_capture_try 1 cap_ok
                   (fst (pixhawk_trigger_callback 1700000101 18 ctl_busy)))))"

section \<open>What each operation changes\<close>

lemmas effect_defs = logger_def set_status_led_def blink_status_led_def subprocess_run_def

lemma blink_start_eq:
  "blink_status_led_start starts k d s =
     (if led_enabled s \<and> \<not> starts then None else Some (blink_status_led k d s))"
  by (simp add: blink_status_led_start_def blink_status_led_def)

lemma effect_fields:
  "stats (logger l m s) = stats s"
  "capture_count (logger l m s) = capture_count s"
  "is_capturing (logger l m s) = is_capturing s"
  "last_trigger_time (logger l m s) = last_trigger_time s"
  "debounce_time (logger l m s) = debounce_time s"
  "stats (subprocess_run argv s) = stats s"
  "capture_count (subprocess_run argv s) = capture_count s"
  "is_capturing (subprocess_run argv s) = is_capturing s"
  "last_trigger_time (subprocess_run argv s) = last_trigger_time s"
  "debounce_time (subprocess_run argv s) = debounce_time s"
  "stats (blink_status_led k d s) = stats s"
  "capture_count (blink_status_led k d s) = capture_count s"
  "is_capturing (blink_status_led k d s) = is_capturing s"
  "last_trigger_time (blink_status_led k d s) = last_trigger_time s"
  "debounce_time (blink_status_led k d s) = debounce_time s"
  "stats (set_status_led b s) = stats s"
  "capture_count (set_status_led b s) = capture_count s"
  "is_capturing (set_status_led b s) = is_capturing s"
  "last_trigger_time (set_status_led b s) = last_trigger_time s"
  "debounce_time (set_status_led b s) = debounce_time s"
  by (simp_all add: effect_defs)

lemma led_enabled_effects:
  "led_enabled (logger l m s) = led_enabled s"
  "led_enabled (subprocess_run argv s) = led_enabled s"
  "led_enabled (blink_status_led k d s) = led_enabled s"
  "led_enabled (set_status_led b s) = led_enabled s"
  "led_enabled (s\<lparr>capture_count := c\<rparr>) = led_enabled s"
  "led_enabled (s\<lparr>stats := st\<rparr>) = led_enabled s"
  "led_enabled (s\<lparr>is_capturing := b\<rparr>) = led_enabled s"
  by (simp_all add: effect_defs led_enabled_def)

lemma led_effects:
  "led (logger l m s) = led s"
  "led (subprocess_run argv s) = led s"
  "led (blink_status_led k d s) = led s"
  "led (set_status_led b s) = (if led_enabled s then b else led s)"
  by (simp_all add: effect_defs)

lemma logged_effects:
  "logged (logger l m s) = logged s @ [(l, m)]"
  "logged (subprocess_run argv s) = logged s"
  "logged (blink_status_led k d s) = logged s"
  "logged (set_status_led b s) = logged s"
  by (simp_all add: effect_defs)

lemma signals_effects:
  "signals (logger l m s) = signals s"
  "signals (subprocess_run argv s) = signals s"
  "signals (blink_status_led k d s) = (if led_enabled s then signals s @ [(k, d)] else signals s)"
  "signals (set_status_led b s) = signals s"
  by (simp_all add: effect_defs)

lemma capture_timeout_effects:
  "capture_timeout (logger l m s) = capture_timeout s"
  "capture_timeout (subprocess_run argv s) = capture_timeout s"
  "capture_timeout (blink_status_led k d s) = capture_timeout s"
  "capture_timeout (set_status_led b s) = capture_timeout s"
  by (simp_all add: effect_defs)

lemmas effects = effect_fields led_enabled_effects led_effects logged_effects signals_effects
  capture_timeout_effects

lemma launch_fields:
  "stats (execute_capture_launch n env s) = stats s"
  "capture_count (execute_capture_launch n env s) = capture_count s"
  "is_capturing (execute_capture_launch n env s) = is_capturing s"
  "last_trigger_time (execute_capture_launch n env s) = last_trigger_time s"
  "debounce_time (execute_capture_launch n env s) = debounce_time s"
  "led_enabled (execute_capture_launch n env s) = led_enabled s"
  "led (execute_capture_launch n env s) = led s"
  "signals (execute_capture_launch n env s) = signals s"
  "capture_timeout (execute_capture_launch n env s) = capture_timeout s"
  "logged (execute_capture_launch n env s) =
     logged s @ [(Info, CaptureStarted n (capture_filename env n))]"
  by (simp_all add: execute_capture_launch_def Let_def effects)

lemma log_success_fields:
  "stats (log_success n env s) = stats s"
  "capture_count (log_success n env s) = capture_count s"
  "is_capturing (log_success n env s) = is_capturing s"
  "last_trigger_time (log_success n env s) = last_trigger_time s"
  "debounce_time (log_success n env s) = debounce_time s"
  "led_enabled (log_success n env s) = led_enabled s"
  "led (log_success n env s) = led s"
  "signals (log_success n env s) = signals s"
  "capture_timeout (log_success n env s) = capture_timeout s"
  by (cases "getsize env"; simp add: log_success_def effects)+

lemma log_failure_fields:
  "stats (log_failure n env err s) = stats s"
  "capture_count (log_failure n env err s) = capture_count s"
  "is_capturing (log_failure n env err s) = is_capturing s"
  "last_trigger_time (log_failure n env err s) = last_trigger_time s"
  "debounce_time (log_failure n env err s) = debounce_time s"
  "led_enabled (log_failure n env err s) = led_enabled s"
  "led (log_failure n env err s) = led s"
  "signals (log_failure n env err s) = signals s"
  "capture_timeout (log_failure n env err s) = capture_timeout s"
  "logged (log_failure n env err s) =
     logged s @ [(Error, CaptureFailed n (capture_time env)), (Error, GphotoError err)]"
  by (simp_all add: log_failure_def effects)

lemma begin_fields:
  "capture_count (execute_capture_begin s) = capture_count s"
  "stats (execute_capture_begin s) = stats s"
  "is_capturing (execute_capture_begin s)"
  "last_trigger_time (execute_capture_begin s) = last_trigger_time s"
  "debounce_time (execute_capture_begin s) = debounce_time s"
  "led_enabled (execute_capture_begin s) = led_enabled s"
  "led (execute_capture_begin s) = led s"
  "signals (execute_capture_begin s) = signals s"
  "logged (execute_capture_begin s) = logged s"
  "capture_timeout (execute_capture_begin s) = capture_timeout s"
  by (simp_all add: execute_capture_begin_def led_enabled_def)

lemma finally_fields:
  "capture_count (execute_capture_finally s) = capture_count s"
  "stats (execute_capture_finally s) = stats s"
  "is_capturing (execute_capture_finally s) = False"
  "led (execute_capture_finally s) = (if led_enabled s then False else led s)"
  "signals (execute_capture_finally s) = signals s"
  "logged (execute_capture_finally s) = logged s"
  by (simp_all add: execute_capture_finally_def effect_defs led_enabled_def)

lemma try_led:
  "led_enabled (fst (execute_capture_try n env s)) = led_enabled s"
  "led (fst (execute_capture_try n env s)) = led s"
  by (cases "run_outcome env";
      simp add: execute_capture_try_def Let_def blink_start_eq launch_fields log_success_fields
        log_failure_fields effects)+

lemma except_led:
  "led_enabled (fst (execute_capture_except n env r)) = led_enabled (fst r)"
  "led (fst (execute_capture_except n env r)) = led (fst r)"
  by (cases r; cases "snd r"; cases "the (snd r)";
      simp add: execute_capture_except_def Let_def blink_start_eq effects)+


lemma ctl0_record:
  "ctl0 = \<lparr>trigger_pin = 18, status_led_pin = Some 24, capture_count = 0,
     last_trigger_time = 0, is_capturing = False,
     session_start_time = 1700000000,
     photo_directory = ''/home/pi/aerial_photos'', debounce_time = 1 / 10,
     capture_timeout = 30,
     stats = \<lparr>total_triggers = 0, successful_captures = 0, failed_captures = 0,
         session_start = ''2023-11-14T22:13:20''\<rparr>,
     led = False, signals = [(3, 1 / 5), (2, 1 / 2)],
     commands = [[''gphoto2'', ''--auto-detect'']],
     logged = [(Info, PhotoDirectory ''/home/pi/aerial_photos''),
       (Info, GpioConfigured 18), (Info, ProbingCamera), (Info, CameraDetected)]\<rparr>"
  by (simp add: ctl0_def init_def env0_def test_camera_connection_def setup_gpio_def
      setup_directories_def effect_defs led_enabled_def Let_def)

lemma ctl1_record:
  "ctl1 = ctl0\<lparr>last_trigger_time := 1700000100,
     stats := \<lparr>total_triggers = 1, successful_captures = 0, failed_captures = 0,
         session_start = ''2023-11-14T22:13:20''\<rparr>,
     led := True,
     logged := logged ctl0 @ [(Info, TriggerDetected 1 18)]\<rparr>"
  by (simp add: ctl1_def ctl0_record pixhawk_trigger_callback_def effect_defs
      led_enabled_def Let_def)




text \<open>
  A worker that runs its steps with nothing in between does what \<open>execute_capture\<close> does.
\<close>

lemma drain_is_execute_capture:
  "drain 13 \<lparr>wid = n, wenv = env, pc = L185_wait, reg = r\<rparr>
     (execute_capture_launch n env (execute_capture_begin s)) = execute_capture n env s"
proof (cases "run_outcome env")
  case (Completed rc err)
  show ?thesis
  proof (cases "rc = 0")
    case True
    with Completed show ?thesis
      by (simp add: eval_nat_numeral worker_step_def execute_capture_def execute_capture_try_def
          execute_capture_except_def execute_capture_finally_def Let_def blink_start_eq
          launch_fields log_success_fields effects)
  next
    case False
    with Completed show ?thesis
      by (simp add: eval_nat_numeral worker_step_def execute_capture_def execute_capture_try_def
          execute_capture_except_def execute_capture_finally_def Let_def blink_start_eq
          launch_fields log_failure_fields effects)
  qed
next
  case TimeoutExpired
  then show ?thesis
    by (simp add: eval_nat_numeral worker_step_def execute_capture_def execute_capture_try_def
        execute_capture_except_def execute_capture_finally_def Let_def blink_start_eq
        launch_fields effects)
next
  case Raised
  then show ?thesis
    by (simp add: eval_nat_numeral worker_step_def execute_capture_def execute_capture_try_def
        execute_capture_except_def execute_capture_finally_def Let_def blink_start_eq
        launch_fields effects)
qed

lemma init_fields:
  "capture_count (init tp lp env) = 0"
  "is_capturing (init tp lp env) = False"
  "last_trigger_time (init tp lp env) = 0"
  "debounce_time (init tp lp env) = 1 / 10"
  "total_triggers (stats (init tp lp env)) = 0"
  "successful_captures (stats (init tp lp env)) = 0"
  "failed_captures (stats (init tp lp env)) = 0"
proof -
  have d: "capture_count (setup_directories env s) = capture_count s"
    "is_capturing (setup_directories env s) = is_capturing s"
    "last_trigger_time (setup_directories env s) = last_trigger_time s"
    "debounce_time (setup_directories env s) = debounce_time s"
    "stats (setup_directories env s) = stats s" for s
    by (simp_all add: setup_directories_def effects)
  have g: "capture_count (setup_gpio env s) = capture_count s"
    "is_capturing (setup_gpio env s) = is_capturing s"
    "last_trigger_time (setup_gpio env s) = last_trigger_time s"
    "debounce_time (setup_gpio env s) = debounce_time s"
    "stats (setup_gpio env s) = stats s" for s
    by (simp_all add: setup_gpio_def effects Let_def)
  have c: "capture_count (fst (test_camera_connection env s)) = capture_count s"
    "is_capturing (fst (test_camera_connection env s)) = is_capturing s"
    "last_trigger_time (fst (test_camera_connection env s)) = last_trigger_time s"
    "debounce_time (fst (test_camera_connection env s)) = debounce_time s"
    "stats (fst (test_camera_connection env s)) = stats s" for s
    by (cases "probe env"; simp add: test_camera_connection_def effects Let_def)+
  show "capture_count (init tp lp env) = 0"
    "is_capturing (init tp lp env) = False"
    "last_trigger_time (init tp lp env) = 0"
    "debounce_time (init tp lp env) = 1 / 10"
    "total_triggers (stats (init tp lp env)) = 0"
    "successful_captures (stats (init tp lp env)) = 0"
    "failed_captures (stats (init tp lp env)) = 0"
    by (simp_all add: init_def Let_def c g d)
qed

lemma callback_counts:
  "capture_count (fst (pixhawk_trigger_callback t ch s)) = capture_count s"
  "successful_captures (stats (fst (pixhawk_trigger_callback t ch s))) =
     successful_captures (stats s)"
  "failed_captures (stats (fst (pixhawk_trigger_callback t ch s))) = failed_captures (stats s)"
  "is_capturing (fst (pixhawk_trigger_callback t ch s)) = is_capturing s"
  by (simp_all add: pixhawk_trigger_callback_def effect_fields Let_def)

lemma callback_total:
  "total_triggers (stats (fst (pixhawk_trigger_callback t ch s))) =
     (if t - last_trigger_time s < debounce_time s then total_triggers (stats s)
      else total_triggers (stats s) + 1)"
  by (simp add: pixhawk_trigger_callback_def effect_fields Let_def)

lemma callback_started:
  "snd (pixhawk_trigger_callback t ch s) =
     (if t - last_trigger_time s < debounce_time s \<or> is_capturing s then None
      else Some (total_triggers (stats s) + 1))"
  by (simp add: pixhawk_trigger_callback_def effect_fields Let_def)

lemma callback_clock:
  "last_trigger_time (fst (pixhawk_trigger_callback t ch s)) =
     (if t - last_trigger_time s < debounce_time s then last_trigger_time s else t)"
  "debounce_time (fst (pixhawk_trigger_callback t ch s)) = debounce_time s"
  by (simp_all add: pixhawk_trigger_callback_def effect_fields Let_def)

lemma callback_led:
  "\<not> t - last_trigger_time s < debounce_time s \<Longrightarrow> \<not> is_capturing s \<Longrightarrow> led_enabled s \<Longrightarrow>
   led (fst (pixhawk_trigger_callback t ch s))"
  by (simp add: pixhawk_trigger_callback_def effect_defs led_enabled_def Let_def)

lemma save_fields:
  "capture_count (fst (save_statistics now ok s)) = capture_count s"
  "stats (fst (save_statistics now ok s)) = stats s"
  "is_capturing (fst (save_statistics now ok s)) = is_capturing s"
  by (simp_all add: save_statistics_def logger_def Let_def)

lemma worker_step_frame:
  "total_triggers (stats (snd (worker_step w s))) = total_triggers (stats s)"
  "last_trigger_time (snd (worker_step w s)) = last_trigger_time s"
  "debounce_time (snd (worker_step w s)) = debounce_time s"
  by (cases "pc w";
      simp add: worker_step_def blink_start_eq log_success_fields log_failure_fields effects)+

lemma worker_step_latch:
  "is_capturing (snd (worker_step w s)) = (if pc w = L230_latch then False else is_capturing s)"
  by (cases "pc w";
      simp add: worker_step_def blink_start_eq log_success_fields log_failure_fields effects)

lemma worker_step_ends:
  "fst (worker_step w s) = None \<longleftrightarrow> pc w = L231_led"
  by (cases "pc w"; simp add: worker_step_def blink_start_eq)

lemma worker_step_next:
  "fst (worker_step w s) = Some w' \<Longrightarrow>
   wid w' = wid w \<and> (pc w' = L231_led \<longleftrightarrow> pc w = L230_latch)"
  by (cases "pc w"; cases "run_outcome (wenv w)";
      auto simp: worker_step_def blink_start_eq split: if_splits)

section \<open>Steps of the system\<close>

lemma step_Edge_eq:
  "step (Edge t ch) \<sigma> =
     Some (\<sigma>\<lparr>ctl := fst (pixhawk_trigger_callback t ch (ctl \<sigma>)),
             pending := pending \<sigma> @
               (case snd (pixhawk_trigger_callback t ch (ctl \<sigma>)) of
                  None \<Rightarrow> [] | Some n \<Rightarrow> [n])\<rparr>)"
  by (simp split: prod.split)

lemma step_Work_eq:
  "step (Work n) \<sigma> =
     (case find (\<lambda>w. wid w = n) (running \<sigma>) of
        None \<Rightarrow> None
      | Some w \<Rightarrow>
          Some (\<sigma>\<lparr>ctl := snd (worker_step w (ctl \<sigma>)),
                   running := (case fst (worker_step w (ctl \<sigma>)) of
                                 None \<Rightarrow> [] | Some w2 \<Rightarrow> [w2])
                              @ remove1 w (running \<sigma>)\<rparr>))"
  by (simp split: prod.split option.split)

lemma step_Edge:
  "step (Edge t ch) \<sigma> = Some \<sigma>' \<Longrightarrow>
   ctl \<sigma>' = fst (pixhawk_trigger_callback t ch (ctl \<sigma>)) \<and>
   started \<sigma>' = started \<sigma> \<and> running \<sigma>' = running \<sigma> \<and>
   pending \<sigma>' = pending \<sigma> @
     (case snd (pixhawk_trigger_callback t ch (ctl \<sigma>)) of None \<Rightarrow> [] | Some n \<Rightarrow> [n])"
  by (auto simp: step_Edge_eq simp del: step.simps)

lemma step_Start:
  "step (Start n) \<sigma> = Some \<sigma>' \<Longrightarrow>
   n \<in> set (pending \<sigma>) \<and> ctl \<sigma>' = execute_capture_begin (ctl \<sigma>) \<and>
   pending \<sigma>' = remove1 n (pending \<sigma>) \<and> started \<sigma>' = started \<sigma> @ [n] \<and>
   running \<sigma>' = running \<sigma>"
  by (auto split: if_splits)

lemma step_Launch:
  "step (Launch n env) \<sigma> = Some \<sigma>' \<Longrightarrow>
   n \<in> set (started \<sigma>) \<and> ctl \<sigma>' = execute_capture_launch n env (ctl \<sigma>) \<and>
   pending \<sigma>' = pending \<sigma> \<and> started \<sigma>' = remove1 n (started \<sigma>) \<and>
   running \<sigma>' = running \<sigma> @ [\<lparr>wid = n, wenv = env, pc = L185_wait, reg = 0\<rparr>]"
  by (auto split: if_splits)

lemma step_Work:
  "step (Work n) \<sigma> = Some \<sigma>' \<Longrightarrow>
   \<exists>w. find (\<lambda>w. wid w = n) (running \<sigma>) = Some w \<and> w \<in> set (running \<sigma>) \<and>
       ctl \<sigma>' = snd (worker_step w (ctl \<sigma>)) \<and>
       pending \<sigma>' = pending \<sigma> \<and> started \<sigma>' = started \<sigma> \<and>
       running \<sigma>' = (case fst (worker_step w (ctl \<sigma>)) of None \<Rightarrow> [] | Some w2 \<Rightarrow> [w2])
                     @ remove1 w (running \<sigma>)"
  by (auto simp: step_Work_eq find_Some_iff simp del: step.simps split: option.splits)

lemma step_Save:
  "step (Save now ok) \<sigma> = Some \<sigma>' \<Longrightarrow>
   ctl \<sigma>' = fst (save_statistics now ok (ctl \<sigma>)) \<and>
   pending \<sigma>' = pending \<sigma> \<and> started \<sigma>' = started \<sigma> \<and> running \<sigma>' = running \<sigma>"
  by auto

lemma run_events_Cons:
  "run_events (e # es) \<sigma> = Some \<sigma>' \<Longrightarrow>
   \<exists>\<sigma>1. step e \<sigma> = Some \<sigma>1 \<and> run_events es \<sigma>1 = Some \<sigma>'"
  by (auto split: option.splits)

lemma step_triggers_first:
  assumes st: "step e \<sigma> = Some \<sigma>'" and inv: "triggers_first \<sigma>"
  shows "triggers_first \<sigma>'"
proof (cases e)
  case (Edge t ch)
  from st have "step (Edge t ch) \<sigma> = Some \<sigma>'"
    unfolding Edge .
  note e = step_Edge [OF this]
  with inv show ?thesis
    by (auto simp: triggers_first_def callback_counts callback_total callback_started
        split: if_splits)
next
  case (Start n)
  from st have "step (Start n) \<sigma> = Some \<sigma>'"
    unfolding Start .
  note e = step_Start [OF this]
  then have "pending \<sigma> \<noteq> []"
    by auto
  with e inv show ?thesis
    by (auto simp: triggers_first_def begin_fields)
next
  case (Launch n env)
  from st have "step (Launch n env) \<sigma> = Some \<sigma>'"
    unfolding Launch .
  note e = step_Launch [OF this]
  then have "started \<sigma> \<noteq> []"
    by auto
  with e inv show ?thesis
    by (auto simp: triggers_first_def launch_fields)
next
  case (Work n)
  from st have "step (Work n) \<sigma> = Some \<sigma>'"
    unfolding Work .
  from step_Work [OF this] obtain w where w: "w \<in> set (running \<sigma>)"
    and c: "ctl \<sigma>' = snd (worker_step w (ctl \<sigma>))"
    by blast
  from w have "running \<sigma> \<noteq> []"
    by auto
  with inv c show ?thesis
    by (auto simp: triggers_first_def worker_step_frame)
next
  case (Save now ok)
  from st have "step (Save now ok) \<sigma> = Some \<sigma>'"
    unfolding Save .
  note e = step_Save [OF this]
  with inv show ?thesis
    by (simp add: triggers_first_def save_fields)
qed

lemma run_events_triggers_first:
  "run_events evs \<sigma> = Some \<sigma>' \<Longrightarrow> triggers_first \<sigma> \<Longrightarrow> triggers_first \<sigma>'"
proof (induction evs arbitrary: \<sigma>)
  case Nil
  then show ?case by simp
next
  case (Cons e evs)
  from run_events_Cons [OF Cons.prems(1)] obtain \<sigma>1
    where s: "step e \<sigma> = Some \<sigma>1" and r: "run_events evs \<sigma>1 = Some \<sigma>'"
    by blast
  show ?case
    by (rule Cons.IH [OF r step_triggers_first [OF s Cons.prems(2)]])
qed

lemma boot_triggers_first: "triggers_first (boot tp lp env)"
  by (simp add: triggers_first_def boot_def init_fields)

lemma singleton_member: "x \<in> set xs \<Longrightarrow> length xs \<le> 1 \<Longrightarrow> xs = [x]"
  by (cases xs) auto

lemma no_pc_empty:
  "\<not> list_ex (\<lambda>w. pc w = L231_led) ws \<Longrightarrow> \<not> list_ex (\<lambda>w. pc w \<noteq> L231_led) ws \<Longrightarrow> ws = []"
  by (cases ws) auto

lemma step_single_flight:
  assumes st: "step e \<sigma> = Some \<sigma>'"
    and guard: "case e of Edge t ch \<Rightarrow> quiet \<sigma> | _ \<Rightarrow> True"
    and inv: "single_flight \<sigma>"
  shows "single_flight \<sigma>'"
proof (cases e)
  case (Edge t ch)
  from st have "step (Edge t ch) \<sigma> = Some \<sigma>'"
    unfolding Edge .
  note e = step_Edge [OF this]
  from guard Edge have q: "pending \<sigma> = []" "\<not> list_ex (\<lambda>w. pc w = L231_led) (running \<sigma>)"
    by (simp_all add: quiet_def)
  show ?thesis
  proof (cases "snd (pixhawk_trigger_callback t ch (ctl \<sigma>))")
    case None
    with e q inv show ?thesis
      by (simp add: single_flight_def in_flight_def latched_def callback_counts)
  next
    case (Some k)
    then have "\<not> is_capturing (ctl \<sigma>)"
      by (simp add: callback_started split: if_splits)
    with inv have "started \<sigma> = []" "\<not> list_ex (\<lambda>w. pc w \<noteq> L231_led) (running \<sigma>)"
      by (simp_all add: single_flight_def latched_def)
    with q have "started \<sigma> = []" "running \<sigma> = []"
      by (simp_all add: no_pc_empty)
    with e q Some inv show ?thesis
      by (simp add: single_flight_def in_flight_def latched_def callback_counts)
  qed
next
  case (Start n)
  from st have "step (Start n) \<sigma> = Some \<sigma>'"
    unfolding Start .
  note e = step_Start [OF this]
  from inv have le: "length (pending \<sigma>) + length (started \<sigma>) + length (running \<sigma>) \<le> 1"
    by (simp add: single_flight_def in_flight_def)
  with e have p: "pending \<sigma> = [n]"
    by (intro singleton_member) simp_all
  with le have r: "started \<sigma> = []" "running \<sigma> = []"
    by simp_all
  from e p r show ?thesis
    by (simp add: single_flight_def in_flight_def latched_def begin_fields)
next
  case (Launch n env)
  from st have "step (Launch n env) \<sigma> = Some \<sigma>'"
    unfolding Launch .
  note e = step_Launch [OF this]
  from inv have le: "length (pending \<sigma>) + length (started \<sigma>) + length (running \<sigma>) \<le> 1"
    by (simp add: single_flight_def in_flight_def)
  with e have p: "started \<sigma> = [n]"
    by (intro singleton_member) simp_all
  with le have r: "pending \<sigma> = []" "running \<sigma> = []"
    by simp_all
  from inv p have "is_capturing (ctl \<sigma>)"
    by (simp add: single_flight_def latched_def)
  with e p r show ?thesis
    by (simp add: single_flight_def in_flight_def latched_def launch_fields)
next
  case (Work n)
  from st have "step (Work n) \<sigma> = Some \<sigma>'"
    unfolding Work .
  from step_Work [OF this] obtain w where w: "w \<in> set (running \<sigma>)"
    and c: "ctl \<sigma>' = snd (worker_step w (ctl \<sigma>))"
    and l: "pending \<sigma>' = pending \<sigma>" "started \<sigma>' = started \<sigma>"
    and r': "running \<sigma>' = (case fst (worker_step w (ctl \<sigma>)) of None \<Rightarrow> [] | Some w2 \<Rightarrow> [w2])
                     @ remove1 w (running \<sigma>)"
    by blast
  from inv have le: "length (pending \<sigma>) + length (started \<sigma>) + length (running \<sigma>) \<le> 1"
    by (simp add: single_flight_def in_flight_def)
  with w have r: "running \<sigma> = [w]"
    by (intro singleton_member) simp_all
  with le have p: "pending \<sigma> = []" "started \<sigma> = []"
    by simp_all
  from inv r p have latch: "is_capturing (ctl \<sigma>) \<longleftrightarrow> pc w \<noteq> L231_led"
    by (simp add: single_flight_def latched_def)
  show ?thesis
  proof (cases "fst (worker_step w (ctl \<sigma>))")
    case None
    then have "pc w = L231_led"
      by (simp add: worker_step_ends)
    with None c l r' r p latch show ?thesis
      by (simp add: single_flight_def in_flight_def latched_def worker_step_latch)
  next
    case (Some w2)
    from worker_step_next [OF Some] have n: "pc w2 = L231_led \<longleftrightarrow> pc w = L230_latch"
      by simp
    from Some have "fst (worker_step w (ctl \<sigma>)) \<noteq> None"
      by simp
    then have "pc w \<noteq> L231_led"
      by (simp add: worker_step_ends)
    with Some c l r' r p latch n show ?thesis
      by (simp add: single_flight_def in_flight_def latched_def worker_step_latch)
  qed
next
  case (Save now ok)
  from st have "step (Save now ok) \<sigma> = Some \<sigma>'"
    unfolding Save .
  note e = step_Save [OF this]
  with inv show ?thesis
    by (simp add: single_flight_def in_flight_def latched_def save_fields)
qed

lemma in_step_same_counters:
  "capture_count s' = capture_count s \<Longrightarrow>
   successful_captures (stats s') = successful_captures (stats s) \<Longrightarrow>
   in_step w s' = in_step w s"
  by (simp add: in_step_def split: pc.split)

lemma worker_step_in_step:
  "in_step w s \<Longrightarrow>
   (case fst (worker_step w s) of
      None \<Rightarrow> capture_count (snd (worker_step w s)) =
               successful_captures (stats (snd (worker_step w s)))
    | Some w2 \<Rightarrow> in_step w2 (snd (worker_step w s)))"
  by (cases "pc w"; cases "run_outcome (wenv w)")
     (auto simp: in_step_def worker_step_def blink_start_eq log_success_fields
        log_failure_fields effects)

lemma step_tracking:
  assumes st: "step e \<sigma> = Some \<sigma>'"
    and sf: "single_flight \<sigma>"
    and inv: "tracking \<sigma>"
  shows "tracking \<sigma>'"
proof (cases e)
  case (Edge t ch)
  from st have "step (Edge t ch) \<sigma> = Some \<sigma>'"
    unfolding Edge .
  note e = step_Edge [OF this]
  have "in_step w (ctl \<sigma>') = in_step w (ctl \<sigma>)" for w
    using e by (intro in_step_same_counters) (simp_all add: callback_counts)
  with e inv show ?thesis
    by (simp add: tracking_def callback_counts)
next
  case (Start n)
  from st have "step (Start n) \<sigma> = Some \<sigma>'"
    unfolding Start .
  note e = step_Start [OF this]
  have "in_step w (ctl \<sigma>') = in_step w (ctl \<sigma>)" for w
    using e by (intro in_step_same_counters) (simp_all add: begin_fields)
  with e inv show ?thesis
    by (simp add: tracking_def begin_fields)
next
  case (Launch n env)
  from st have "step (Launch n env) \<sigma> = Some \<sigma>'"
    unfolding Launch .
  note e = step_Launch [OF this]
  from sf have le: "length (pending \<sigma>) + length (started \<sigma>) + length (running \<sigma>) \<le> 1"
    by (simp add: single_flight_def in_flight_def)
  with e have p: "started \<sigma> = [n]"
    by (intro singleton_member) simp_all
  with le have r: "running \<sigma> = []"
    by simp
  with inv have "capture_count (ctl \<sigma>) = successful_captures (stats (ctl \<sigma>))"
    by (simp add: tracking_def)
  with e r show ?thesis
    by (simp add: tracking_def in_step_def launch_fields)
next
  case (Work n)
  from st have "step (Work n) \<sigma> = Some \<sigma>'"
    unfolding Work .
  from step_Work [OF this] obtain w where w: "w \<in> set (running \<sigma>)"
    and c: "ctl \<sigma>' = snd (worker_step w (ctl \<sigma>))"
    and r': "running \<sigma>' = (case fst (worker_step w (ctl \<sigma>)) of None \<Rightarrow> [] | Some w2 \<Rightarrow> [w2])
                     @ remove1 w (running \<sigma>)"
    by blast
  from sf have le: "length (pending \<sigma>) + length (started \<sigma>) + length (running \<sigma>) \<le> 1"
    by (simp add: single_flight_def in_flight_def)
  with w have r: "running \<sigma> = [w]"
    by (intro singleton_member) simp_all
  with inv have "in_step w (ctl \<sigma>)"
    by (simp add: tracking_def)
  from worker_step_in_step [OF this] c r' r show ?thesis
    by (cases "fst (worker_step w (ctl \<sigma>))") (simp_all add: tracking_def)
next
  case (Save now ok)
  from st have "step (Save now ok) \<sigma> = Some \<sigma>'"
    unfolding Save .
  note e = step_Save [OF this]
  have "in_step w (ctl \<sigma>') = in_step w (ctl \<sigma>)" for w
    using e by (intro in_step_same_counters) (simp_all add: save_fields)
  with e inv show ?thesis
    by (simp add: tracking_def save_fields)
qed

lemma orderly_Cons:
  "orderly (e # es) \<sigma> \<Longrightarrow>
   (case e of Edge t ch \<Rightarrow> quiet \<sigma> | _ \<Rightarrow> True) \<and>
   (\<exists>\<sigma>1. step e \<sigma> = Some \<sigma>1 \<and> orderly es \<sigma>1)"
  by (auto split: option.splits)

lemma orderly_prefix: "orderly (xs @ ys) \<sigma> \<Longrightarrow> orderly xs \<sigma>"
proof (induction xs arbitrary: \<sigma>)
  case Nil
  then show ?case by simp
next
  case (Cons e xs)
  from Cons.prems have "orderly (e # (xs @ ys)) \<sigma>"
    by simp
  from orderly_Cons [OF this] obtain \<sigma>1
    where g: "case e of Edge t ch \<Rightarrow> quiet \<sigma> | _ \<Rightarrow> True"
      and s: "step e \<sigma> = Some \<sigma>1" and p: "orderly (xs @ ys) \<sigma>1"
    by blast
  from Cons.IH [OF p] g s show ?case
    by simp
qed

lemma orderly_invariants:
  "orderly evs \<sigma> \<Longrightarrow> single_flight \<sigma> \<Longrightarrow> tracking \<sigma> \<Longrightarrow>
   \<exists>\<sigma>'. run_events evs \<sigma> = Some \<sigma>' \<and> single_flight \<sigma>' \<and> tracking \<sigma>'"
proof (induction evs arbitrary: \<sigma>)
  case Nil
  then show ?case by simp
next
  case (Cons e evs)
  from orderly_Cons [OF Cons.prems(1)] obtain \<sigma>1
    where g: "case e of Edge t ch \<Rightarrow> quiet \<sigma> | _ \<Rightarrow> True"
      and s: "step e \<sigma> = Some \<sigma>1" and p: "orderly evs \<sigma>1"
    by blast
  from step_single_flight [OF s g Cons.prems(2)] have a: "single_flight \<sigma>1" .
  from step_tracking [OF s Cons.prems(2) Cons.prems(3)] have b: "tracking \<sigma>1" .
  from Cons.IH [OF p a b] s show ?case
    by simp
qed

lemma boot_single_flight: "single_flight (boot tp lp env)"
  by (simp add: single_flight_def in_flight_def latched_def boot_def init_fields)

lemma boot_tracking: "tracking (boot tp lp env)"
  by (simp add: tracking_def boot_def init_fields)

lemma tracking_counts:
  assumes "single_flight \<sigma>" and "tracking \<sigma>"
  shows "capture_count (ctl \<sigma>) =
     successful_captures (stats (ctl \<sigma>)) + (if between_increments \<sigma> then 1 else 0)"
proof (cases "running \<sigma>")
  case Nil
  with assms show ?thesis
    by (simp add: tracking_def between_increments_def)
next
  case (Cons w ws)
  with assms(1) have "ws = []"
    by (simp add: single_flight_def in_flight_def)
  with Cons assms(2) show ?thesis
    by (cases "pc w") (simp_all add: tracking_def between_increments_def in_step_def)
qed

section \<open>Example runs\<close>

lemma boot0_eq:
  "boot 18 (Some 24) env0 = \<lparr>ctl = ctl0, pending = [], started = [], running = []\<rparr>"
  by (simp add: boot_def ctl0_def)

lemma ctl0_fields:
  "last_trigger_time ctl0 = 0" "debounce_time ctl0 = 1 / 10" "is_capturing ctl0 = False"
  "total_triggers (stats ctl0) = 0" "capture_count ctl0 = 0"
  "successful_captures (stats ctl0) = 0" "failed_captures (stats ctl0) = 0"
  "led_enabled ctl0"
  by (simp_all add: ctl0_record led_enabled_def)

lemma worker_step_counts:
  "capture_count (snd (worker_step w s)) =
     (if pc w = L196_write then reg w + 1 else capture_count s)"
  "successful_captures (stats (snd (worker_step w s))) =
     (if pc w = L197_write then reg w + 1 else successful_captures (stats s))"
  "failed_captures (stats (snd (worker_step w s))) =
     (if pc w = L212_write \<or> pc w = L220_write \<or> pc w = L225_write then reg w + 1
      else failed_captures (stats s))"
  by (cases "pc w";
      simp add: worker_step_def blink_start_eq log_success_fields log_failure_fields effects)+

lemma worker_step_led_enabled:
  "led_enabled (snd (worker_step w s)) = led_enabled s"
  by (cases "pc w";
      simp add: worker_step_def blink_start_eq log_success_fields log_failure_fields effects)

lemma worker_step_pc:
  "fst (worker_step w s) =
     (case pc w of
        L185_wait \<Rightarrow>
          Some (w\<lparr>pc := (case run_outcome (wenv w) of
                              Completed returncode stderr \<Rightarrow>
                                if returncode = 0 then L196_read else L212_read
                            | TimeoutExpired \<Rightarrow> L220_read
                            | Raised \<Rightarrow> L225_read)\<rparr>)
      | L196_read \<Rightarrow> Some (w\<lparr>pc := L196_write, reg := capture_count s\<rparr>)
      | L196_write \<Rightarrow> Some (w\<lparr>pc := L197_read\<rparr>)
      | L197_read \<Rightarrow> Some (w\<lparr>pc := L197_write, reg := successful_captures (stats s)\<rparr>)
      | L197_write \<Rightarrow> Some (w\<lparr>pc := L200_log\<rparr>)
      | L200_log \<Rightarrow> Some (w\<lparr>pc := L208_blink\<rparr>)
      | L208_blink \<Rightarrow>
          Some (w\<lparr>pc := (if led_enabled s \<and> \<not> try_blink_starts (wenv w)
                           then L225_read else L230_latch)\<rparr>)
      | L212_read \<Rightarrow> Some (w\<lparr>pc := L212_write, reg := failed_captures (stats s)\<rparr>)
      | L212_write \<Rightarrow> Some (w\<lparr>pc := L213_log\<rparr>)
      | L213_log \<Rightarrow> Some (w\<lparr>pc := L217_blink\<rparr>)
      | L217_blink \<Rightarrow>
          Some (w\<lparr>pc := (if led_enabled s \<and> \<not> try_blink_starts (wenv w)
                           then L225_read else L230_latch)\<rparr>)
      | L220_read \<Rightarrow> Some (w\<lparr>pc := L220_write, reg := failed_captures (stats s)\<rparr>)
      | L220_write \<Rightarrow> Some (w\<lparr>pc := L221_log\<rparr>)
      | L221_log \<Rightarrow> Some (w\<lparr>pc := L222_blink\<rparr>)
      | L222_blink \<Rightarrow> Some (w\<lparr>pc := L230_latch\<rparr>)
      | L225_read \<Rightarrow> Some (w\<lparr>pc := L225_write, reg := failed_captures (stats s)\<rparr>)
      | L225_write \<Rightarrow> Some (w\<lparr>pc := L226_log\<rparr>)
      | L226_log \<Rightarrow> Some (w\<lparr>pc := L227_blink\<rparr>)
      | L227_blink \<Rightarrow> Some (w\<lparr>pc := L230_latch\<rparr>)
      | L230_latch \<Rightarrow> Some (w\<lparr>pc := L231_led\<rparr>)
      | L231_led \<Rightarrow> None)"
  by (cases "pc w"; simp add: worker_step_def blink_start_eq)


lemma replicate_works:
  "replicate 6 x = [x, x, x, x, x, x]"
  "replicate 8 x = [x, x, x, x, x, x, x, x]"
  "replicate 9 x = [x, x, x, x, x, x, x, x, x]"
  by (simp_all add: numeral_eq_Suc)

lemmas run_simps = boot0_eq step_Edge_eq step_Work_eq callback_started callback_counts
  callback_total callback_clock begin_fields launch_fields finally_fields ctl0_fields
  worker_step_pc worker_step_counts worker_step_latch worker_step_frame worker_step_led_enabled
  observe_def counters_def replicate_works cap_ok_def

lemmas eval_defs = boot0_eq ctl0_record pixhawk_trigger_callback_def effect_defs led_enabled_def
  execute_capture_begin_def execute_capture_launch_def worker_step_def log_success_def
  log_failure_def blink_status_led_start_def Let_def replicate_works

lemma ctl_busy_record: "ctl_busy = ctl1\<lparr>is_capturing := True\<rparr>"
  by (simp add: ctl_busy_def execute_capture_begin_def)

lemma boot0_record: "boot0 = \<lparr>ctl = ctl0, pending = [], started = [], running = []\<rparr>"
  by (simp add: boot0_def boot_def ctl0_def)

lemma rate_lookup:
  "map_of (get_statistics now s) ''success_rate_percent'' =
     Some (PFloat (of_int (successful_captures (stats s)) /
                   of_int (max (total_triggers (stats s)) 1) * 100))"
  by (simp add: get_statistics_def stats_items_def Let_def)

lemma run_half:
  "run_events ([Edge 1700000100 18, Start 1, Edge 1700000101 18, Launch 1 cap_ok]
               @ replicate 9 (Work 1))
     (boot 18 (Some 24) env0) =
   Some \<lparr>ctl = ctl_half, pending = [], started = [], running = []\<rparr>"
  by (simp add: eval_defs cap_ok_def ctl_half_def ctl_busy_def ctl1_def execute_capture_try_def
      execute_capture_except_def execute_capture_finally_def)

lemma ctl_half_counts:
  "successful_captures (stats ctl_half) = 1" "total_triggers (stats ctl_half) = 2"
  "failed_captures (stats ctl_half) = 0"
  by (simp_all add: eval_defs cap_ok_def ctl_half_def ctl_busy_def ctl1_def
      execute_capture_try_def execute_capture_except_def execute_capture_finally_def)

section \<open>Edges inside the debounce window\<close>

text \<open>
  C9. An edge that the debounce test discards leaves the controller exactly as it was:
  the callback returns the state it was given, with every attribute, the log, the LED
  level and the list of blink threads unchanged, and it starts no capture thread.
\<close>

theorem callback_discards_bounce:
  "current_time - last_trigger_time s < debounce_time s \<Longrightarrow>
   pixhawk_trigger_callback current_time channel s = (s, None)"
  by (simp add: pixhawk_trigger_callback_def)

theorem callback_discards_bounce_witness:
  "(1700000100 + 1 / 20 :: rat) - last_trigger_time ctl1 < debounce_time ctl1 \<and>
   pixhawk_trigger_callback (1700000100 + 1 / 20) 18 ctl1 = (ctl1, None)"
proof -
  have h: "(1700000100 + 1 / 20 :: rat) - last_trigger_time ctl1 < debounce_time ctl1"
    by (simp add: ctl1_record ctl0_record)
  from callback_discards_bounce [OF h] h show ?thesis by simp
qed

text \<open>
  C4. An edge whose clock reading is less than the debounce window after
  \<open>last_trigger_time\<close> is discarded: \<open>total_triggers\<close> and the log keep their values and
  no thread is started. For edges at \<open>t0\<close>, \<open>t0 + 50 ms\<close> and \<open>t0 + 150 ms\<close> with a 100 ms
  window, the first edge not being itself inside the window after \<open>last_trigger_time\<close>,
  the first and the third are counted and the second leaves the state unchanged, so
  \<open>total_triggers\<close> grows by 2. On a fresh controller \<open>last_trigger_time\<close> is 0 and the
  clock is \<open>time.time()\<close>, seconds since the epoch, so the first edge is at some reading
  \<open>t0\<close> of at least 100 ms, the times of the scenario are offsets from it, and
  \<open>total_triggers\<close> becomes 2.
\<close>

theorem debounce_window_scenario:
  "(t - last_trigger_time s < debounce_time s \<longrightarrow>
      total_triggers (stats (fst (pixhawk_trigger_callback t ch s))) = total_triggers (stats s) \<and>
      logged (fst (pixhawk_trigger_callback t ch s)) = logged s \<and>
      snd (pixhawk_trigger_callback t ch s) = None) \<and>
   (debounce_time s = 1 / 10 \<and> \<not> t0 - last_trigger_time s < debounce_time s \<longrightarrow>
      (let s1 = fst (pixhawk_trigger_callback t0 ch s);
           s2 = fst (pixhawk_trigger_callback (t0 + 50 / 1000) ch s1);
           s3 = fst (pixhawk_trigger_callback (t0 + 150 / 1000) ch s2)
       in total_triggers (stats s1) = total_triggers (stats s) + 1 \<and>
          last_trigger_time s1 = t0 \<and>
          s2 = s1 \<and>
          last_trigger_time s3 = t0 + 150 / 1000 \<and>
          total_triggers (stats s3) = total_triggers (stats s) + 2)) \<and>
   (1 / 10 \<le> t0 \<longrightarrow>
      (let s1 = fst (pixhawk_trigger_callback t0 ch (init tp lp env));
           s2 = fst (pixhawk_trigger_callback (t0 + 50 / 1000) ch s1);
           s3 = fst (pixhawk_trigger_callback (t0 + 150 / 1000) ch s2)
       in total_triggers (stats s1) = 1 \<and> s2 = s1 \<and> total_triggers (stats s3) = 2))"
proof -
  have scenario: "let s1 = fst (pixhawk_trigger_callback t0 ch s);
           s2 = fst (pixhawk_trigger_callback (t0 + 50 / 1000) ch s1);
           s3 = fst (pixhawk_trigger_callback (t0 + 150 / 1000) ch s2)
       in total_triggers (stats s1) = total_triggers (stats s) + 1 \<and>
          last_trigger_time s1 = t0 \<and>
          s2 = s1 \<and>
          last_trigger_time s3 = t0 + 150 / 1000 \<and>
          total_triggers (stats s3) = total_triggers (stats s) + 2"
    if h: "debounce_time s = 1 / 10 \<and> \<not> t0 - last_trigger_time s < debounce_time s" for s
  proof -
    define s1 where "s1 = fst (pixhawk_trigger_callback t0 ch s)"
    have l1: "last_trigger_time s1 = t0" and d1: "debounce_time s1 = 1 / 10"
      and n1: "total_triggers (stats s1) = total_triggers (stats s) + 1"
      using h by (simp_all add: s1_def callback_clock callback_total)
    have bounce: "pixhawk_trigger_callback (t0 + 50 / 1000) ch s1 = (s1, None)"
      by (simp add: pixhawk_trigger_callback_def l1 d1)
    have l3: "last_trigger_time (fst (pixhawk_trigger_callback (t0 + 150 / 1000) ch s1))
        = t0 + 150 / 1000"
      and n3: "total_triggers (stats (fst (pixhawk_trigger_callback (t0 + 150 / 1000) ch s1)))
        = total_triggers (stats s) + 2"
      by (simp_all add: callback_clock callback_total l1 d1 n1)
    show ?thesis
      unfolding Let_def s1_def [symmetric] bounce fst_conv
      using l1 n1 l3 n3 by simp
  qed
  have a: "t - last_trigger_time s < debounce_time s \<longrightarrow>
      total_triggers (stats (fst (pixhawk_trigger_callback t ch s))) = total_triggers (stats s) \<and>
      logged (fst (pixhawk_trigger_callback t ch s)) = logged s \<and>
      snd (pixhawk_trigger_callback t ch s) = None"
    by (simp add: pixhawk_trigger_callback_def)
  have b: "debounce_time s = 1 / 10 \<and> \<not> t0 - last_trigger_time s < debounce_time s \<longrightarrow>
      (let s1 = fst (pixhawk_trigger_callback t0 ch s);
           s2 = fst (pixhawk_trigger_callback (t0 + 50 / 1000) ch s1);
           s3 = fst (pixhawk_trigger_callback (t0 + 150 / 1000) ch s2)
       in total_triggers (stats s1) = total_triggers (stats s) + 1 \<and>
          last_trigger_time s1 = t0 \<and>
          s2 = s1 \<and>
          last_trigger_time s3 = t0 + 150 / 1000 \<and>
          total_triggers (stats s3) = total_triggers (stats s) + 2)"
    using scenario by blast
  have c: "1 / 10 \<le> t0 \<longrightarrow>
      (let s1 = fst (pixhawk_trigger_callback t0 ch (init tp lp env));
           s2 = fst (pixhawk_trigger_callback (t0 + 50 / 1000) ch s1);
           s3 = fst (pixhawk_trigger_callback (t0 + 150 / 1000) ch s2)
       in total_triggers (stats s1) = 1 \<and> s2 = s1 \<and> total_triggers (stats s3) = 2)"
  proof
    assume "1 / 10 \<le> t0"
    then have "debounce_time (init tp lp env) = 1 / 10 \<and>
        \<not> t0 - last_trigger_time (init tp lp env) < debounce_time (init tp lp env)"
      by (simp add: init_fields)
    from scenario [OF this]
    show "let s1 = fst (pixhawk_trigger_callback t0 ch (init tp lp env));
           s2 = fst (pixhawk_trigger_callback (t0 + 50 / 1000) ch s1);
           s3 = fst (pixhawk_trigger_callback (t0 + 150 / 1000) ch s2)
       in total_triggers (stats s1) = 1 \<and> s2 = s1 \<and> total_triggers (stats s3) = 2"
      unfolding Let_def init_fields by auto
  qed
  from a b c show ?thesis by blast
qed

theorem debounce_window_scenario_witness:
  "(1700000100 + 50 / 1000 :: rat) - last_trigger_time ctl1 < debounce_time ctl1 \<and>
   total_triggers (stats (fst (pixhawk_trigger_callback (1700000100 + 50 / 1000) 18 ctl1))) = 1 \<and>
   logged (fst (pixhawk_trigger_callback (1700000100 + 50 / 1000) 18 ctl1)) = logged ctl1 \<and>
   (1 / 10 :: rat) \<le> 1700000100 \<and>
   total_triggers (stats
     (fst (pixhawk_trigger_callback (1700000100 + 150 / 1000) 18
       (fst (pixhawk_trigger_callback (1700000100 + 50 / 1000) 18
         (fst (pixhawk_trigger_callback 1700000100 18 (init 18 (Some 24) env0)))))))) = 2"
proof -
  have h1: "(1700000100 + 50 / 1000 :: rat) - last_trigger_time ctl1 < debounce_time ctl1"
    by (simp add: ctl1_record ctl0_record)
  have n1: "total_triggers (stats ctl1) = 1"
    by (simp add: ctl1_record)
  have h2: "(1 / 10 :: rat) \<le> 1700000100"
    by simp
  note a = debounce_window_scenario [of "1700000100 + 50 / 1000" ctl1 18 1700000100,
      THEN conjunct1, THEN mp, OF h1]
  note b = debounce_window_scenario [of 0 ctl0 18 1700000100 18 "Some 24" env0,
      THEN conjunct2, THEN conjunct2, THEN mp, OF h2, unfolded Let_def]
  from b have c: "total_triggers (stats
     (fst (pixhawk_trigger_callback (1700000100 + 150 / 1000) 18
       (fst (pixhawk_trigger_callback (1700000100 + 50 / 1000) 18
         (fst (pixhawk_trigger_callback 1700000100 18 (init 18 (Some 24) env0)))))))) = 2"
    by (elim conjE)
  from a n1 have d:
    "total_triggers (stats (fst (pixhawk_trigger_callback (1700000100 + 50 / 1000) 18 ctl1))) = 1"
    "logged (fst (pixhawk_trigger_callback (1700000100 + 50 / 1000) 18 ctl1)) = logged ctl1"
    by (simp_all only:)
  from h1 d h2 c show ?thesis
    by blast
qed

section \<open>Edges while a capture is running\<close>

text \<open>
  C3. An edge outside the debounce window that finds \<open>is_capturing\<close> set is counted in
  \<open>total_triggers\<close>, is logged as ignored with its number, and starts no capture thread.
  The callback changes \<open>last_trigger_time\<close>, the counter and the log and nothing else: the
  latch, the two capture counters, the LED and the blink threads are as before.
\<close>

theorem callback_busy_edge:
  "\<not> current_time - last_trigger_time s < debounce_time s \<Longrightarrow> is_capturing s \<Longrightarrow>
   pixhawk_trigger_callback current_time channel s =
     (s\<lparr>last_trigger_time := current_time,
        stats := (stats s)\<lparr>total_triggers := total_triggers (stats s) + 1\<rparr>,
        logged := logged s @ [(Warning, TriggerIgnored (total_triggers (stats s) + 1))]\<rparr>,
      None)"
  by (simp add: pixhawk_trigger_callback_def logger_def Let_def)

theorem callback_busy_edge_witness:
  "\<not> (1700000101 :: rat) - last_trigger_time ctl_busy < debounce_time ctl_busy \<and>
   is_capturing ctl_busy \<and>
   pixhawk_trigger_callback 1700000101 18 ctl_busy =
     (ctl_busy\<lparr>last_trigger_time := 1700000101,
        stats := (stats ctl_busy)\<lparr>total_triggers := 2\<rparr>,
        logged := logged ctl_busy @ [(Warning, TriggerIgnored 2)]\<rparr>,
      None)"
proof -
  have h1: "\<not> (1700000101 :: rat) - last_trigger_time ctl_busy < debounce_time ctl_busy"
    by (simp add: ctl_busy_record ctl1_record ctl0_record)
  have h2: "is_capturing ctl_busy"
    by (simp add: ctl_busy_record)
  have t: "total_triggers (stats ctl_busy) = 1"
    by (simp add: ctl_busy_record ctl1_record)
  from callback_busy_edge [OF h1 h2, of 18] h1 h2 t show ?thesis by simp
qed

section \<open>Where the latch is set\<close>

text \<open>
  C2, as the claim states it, fails. The callback never assigns \<open>is_capturing\<close>: on the
  freshly constructed controller an edge at clock reading 1700000100 passes the debounce
  test, finds the latch false and starts the worker for trigger 1, and when the callback
  returns the latch is still false.
\<close>

theorem dispatch_before_latch_counterexample:
  "\<not> (1700000100 :: rat) - last_trigger_time ctl0 < debounce_time ctl0 \<and>
   \<not> is_capturing ctl0 \<and>
   snd (pixhawk_trigger_callback 1700000100 18 ctl0) = Some 1 \<and>
   \<not> is_capturing (fst (pixhawk_trigger_callback 1700000100 18 ctl0))"
  by (simp add: callback_started callback_counts ctl0_fields)

text \<open>
  C2, amended. An edge that passes the debounce test and finds the latch false makes the
  callback switch the LED on (when a status pin is configured) and start a worker carrying
  the new trigger number; the latch is still false when the callback returns, and it
  becomes true when that worker runs its first statement.
\<close>

theorem latch_set_by_worker:
  assumes "\<not> t - last_trigger_time (ctl \<sigma>) < debounce_time (ctl \<sigma>)"
    and "\<not> is_capturing (ctl \<sigma>)"
  shows "\<exists>\<sigma>1 \<sigma>2.
     step (Edge t ch) \<sigma> = Some \<sigma>1 \<and>
     pending \<sigma>1 = pending \<sigma> @ [total_triggers (stats (ctl \<sigma>)) + 1] \<and>
     \<not> is_capturing (ctl \<sigma>1) \<and>
     (led_enabled (ctl \<sigma>) \<longrightarrow> led (ctl \<sigma>1)) \<and>
     step (Start (total_triggers (stats (ctl \<sigma>)) + 1)) \<sigma>1 = Some \<sigma>2 \<and>
     is_capturing (ctl \<sigma>2)"
  using assms
  by (simp add: step_Edge_eq callback_started callback_counts callback_led begin_fields
      del: step.simps(1))

theorem latch_set_by_worker_witness:
  "\<not> (1700000100 :: rat) - last_trigger_time (ctl boot0) < debounce_time (ctl boot0) \<and>
   \<not> is_capturing (ctl boot0) \<and>
   (\<exists>\<sigma>1 \<sigma>2.
     step (Edge 1700000100 18) boot0 = Some \<sigma>1 \<and>
     pending \<sigma>1 = [1] \<and>
     \<not> is_capturing (ctl \<sigma>1) \<and>
     led (ctl \<sigma>1) \<and>
     step (Start 1) \<sigma>1 = Some \<sigma>2 \<and>
     is_capturing (ctl \<sigma>2))"
proof -
  have h1: "\<not> (1700000100 :: rat) - last_trigger_time (ctl boot0) < debounce_time (ctl boot0)"
    by (simp add: boot0_record ctl0_fields)
  have h2: "\<not> is_capturing (ctl boot0)"
    by (simp add: boot0_record ctl0_fields)
  have l: "led_enabled (ctl boot0)"
    by (simp add: boot0_record ctl0_record led_enabled_def)
  have t: "total_triggers (stats (ctl boot0)) = 0" "pending boot0 = []"
    by (simp_all add: boot0_record ctl0_fields)
  from latch_set_by_worker [OF h1 h2, of 18] h1 h2 l t show ?thesis
    by simp
qed

section \<open>The latch is released on every path\<close>

text \<open>
  C1. Whatever the outcome of the external command (exit status zero or not, timeout,
  any other exception) and of the file size query, \<open>execute_capture\<close> ends with
  \<open>is_capturing\<close> false; with a status pin configured the LED is switched off, and without
  one there is no LED output to change.
\<close>

theorem execute_capture_releases:
  "is_capturing (execute_capture n env s) = False \<and>
   (led_enabled s \<longrightarrow> led (execute_capture n env s) = False) \<and>
   (\<not> led_enabled s \<longrightarrow> led (execute_capture n env s) = led s)"
  by (simp add: execute_capture_def finally_fields except_led try_led begin_fields)

theorem execute_capture_releases_witness:
  "led_enabled ctl1 \<and> led ctl1 \<and>
   is_capturing (execute_capture 1 cap_ok ctl1) = False \<and>
   led (execute_capture 1 cap_ok ctl1) = False \<and>
   is_capturing (execute_capture 1 cap_fail ctl1) = False \<and>
   led (execute_capture 1 cap_fail ctl1) = False \<and>
   is_capturing (execute_capture 1 cap_timeout ctl1) = False \<and>
   led (execute_capture 1 cap_timeout ctl1) = False \<and>
   is_capturing (execute_capture 1 cap_raised ctl1) = False \<and>
   led (execute_capture 1 cap_raised ctl1) = False"
proof -
  have h: "led_enabled ctl1" "led ctl1"
    by (simp_all add: ctl1_record ctl0_record led_enabled_def)
  from execute_capture_releases [of 1 cap_ok ctl1] execute_capture_releases [of 1 cap_fail ctl1]
    execute_capture_releases [of 1 cap_timeout ctl1]
    execute_capture_releases [of 1 cap_raised ctl1] h
  show ?thesis by blast
qed

section \<open>Classification of an attempt\<close>




section \<open>The success rate\<close>

text \<open>
  C6, as the claim states it, fails. The value \<open>get_statistics\<close> returns is a percentage:
  after two counted triggers and one successful capture it is 50, not 1/2.
\<close>

theorem success_rate_fraction_counterexample:
  "run_events ([Edge 1700000100 18, Start 1, Edge 1700000101 18, Launch 1 cap_ok]
               @ replicate 9 (Work 1))
     (boot 18 (Some 24) env0) =
   Some \<lparr>ctl = ctl_half, pending = [], started = [], running = []\<rparr> \<and>
   map_of (get_statistics 1700000200 ctl_half) ''success_rate_percent'' = Some (PFloat 50) \<and>
   (of_int (successful_captures (stats ctl_half)) /
      of_int (max (total_triggers (stats ctl_half)) 1) :: rat) = 1 / 2"
proof (intro conjI)
  show "run_events ([Edge 1700000100 18, Start 1, Edge 1700000101 18, Launch 1 cap_ok]
               @ replicate 9 (Work 1))
     (boot 18 (Some 24) env0) =
   Some \<lparr>ctl = ctl_half, pending = [], started = [], running = []\<rparr>"
    by (rule run_half)
  show "map_of (get_statistics 1700000200 ctl_half) ''success_rate_percent'' = Some (PFloat 50)"
    by (simp add: rate_lookup ctl_half_counts)
  show "(of_int (successful_captures (stats ctl_half)) /
      of_int (max (total_triggers (stats ctl_half)) 1) :: rat) = 1 / 2"
    by (simp add: ctl_half_counts)
qed

text \<open>
  C6, amended. In every state, \<open>success_rate_percent\<close> is
  \<open>successful_captures / max(total_triggers, 1) * 100\<close>. In every state reached from
  construction it is 0 when \<open>total_triggers\<close> is 0 and
  \<open>successful_captures / total_triggers * 100\<close> otherwise.
\<close>

theorem success_rate_percent_value:
  "map_of (get_statistics now s) ''success_rate_percent'' =
     Some (PFloat (of_int (successful_captures (stats s)) /
                   of_int (max (total_triggers (stats s)) 1) * 100)) \<and>
   (run_events evs (boot tp lp env) = Some \<sigma> \<longrightarrow>
      (total_triggers (stats (ctl \<sigma>)) = 0 \<longrightarrow>
         map_of (get_statistics now' (ctl \<sigma>)) ''success_rate_percent'' = Some (PFloat 0)) \<and>
      (total_triggers (stats (ctl \<sigma>)) \<noteq> 0 \<longrightarrow>
         map_of (get_statistics now' (ctl \<sigma>)) ''success_rate_percent'' =
           Some (PFloat (of_int (successful_captures (stats (ctl \<sigma>))) /
                         of_int (total_triggers (stats (ctl \<sigma>))) * 100))))"
proof (intro conjI impI)
  show "map_of (get_statistics now s) ''success_rate_percent'' =
     Some (PFloat (of_int (successful_captures (stats s)) /
                   of_int (max (total_triggers (stats s)) 1) * 100))"
    by (rule rate_lookup)
next
  assume r: "run_events evs (boot tp lp env) = Some \<sigma>"
    and z: "total_triggers (stats (ctl \<sigma>)) = 0"
  from run_events_triggers_first [OF r boot_triggers_first] z
  have "successful_captures (stats (ctl \<sigma>)) = 0"
    by (simp add: triggers_first_def)
  then show "map_of (get_statistics now' (ctl \<sigma>)) ''success_rate_percent'' = Some (PFloat 0)"
    by (simp add: rate_lookup)
next
  assume r: "run_events evs (boot tp lp env) = Some \<sigma>"
    and nz: "total_triggers (stats (ctl \<sigma>)) \<noteq> 0"
  from run_events_triggers_first [OF r boot_triggers_first] nz
  have "max (total_triggers (stats (ctl \<sigma>))) 1 = total_triggers (stats (ctl \<sigma>))"
    by (simp add: triggers_first_def)
  then show "map_of (get_statistics now' (ctl \<sigma>)) ''success_rate_percent'' =
           Some (PFloat (of_int (successful_captures (stats (ctl \<sigma>))) /
                         of_int (total_triggers (stats (ctl \<sigma>))) * 100))"
    by (simp add: rate_lookup)
qed

theorem success_rate_percent_value_witness:
  "run_events ([Edge 1700000100 18, Start 1, Edge 1700000101 18, Launch 1 cap_ok]
               @ replicate 9 (Work 1))
     (boot 18 (Some 24) env0) =
   Some \<lparr>ctl = ctl_half, pending = [], started = [], running = []\<rparr> \<and>
   total_triggers (stats ctl_half) \<noteq> 0 \<and>
   map_of (get_statistics 1700000200 ctl_half) ''success_rate_percent'' = Some (PFloat 50) \<and>
   run_events [] (boot 18 (Some 24) env0) = Some \<lparr>ctl = ctl0, pending = [], started = [], running = []\<rparr> \<and>
   total_triggers (stats ctl0) = 0 \<and>
   map_of (get_statistics 1700000200 ctl0) ''success_rate_percent'' = Some (PFloat 0)"
proof -
  have z: "run_events [] (boot 18 (Some 24) env0) = Some \<lparr>ctl = ctl0, pending = [], started = [], running = []\<rparr>"
    by (simp add: boot0_eq)
  have n: "total_triggers (stats ctl_half) \<noteq> 0"
    by (simp add: ctl_half_counts)
  note a = success_rate_percent_value [of 0 ctl0 _ 18 "Some 24" env0 _ 1700000200,
      THEN conjunct2, THEN mp, OF run_half]
  note b = success_rate_percent_value [of 0 ctl0 _ 18 "Some 24" env0 _ 1700000200,
      THEN conjunct2, THEN mp, OF z]
  from a n have c: "map_of (get_statistics 1700000200 ctl_half) ''success_rate_percent'' =
      Some (PFloat 50)"
    by (simp add: ctl_half_counts)
  from b have d: "map_of (get_statistics 1700000200 ctl0) ''success_rate_percent'' =
      Some (PFloat 0)"
    by (simp add: ctl0_fields)
  have t: "total_triggers (stats ctl0) = 0"
    by (simp add: ctl0_fields)
  from run_half n c z t d show ?thesis
    by blast
qed

section \<open>Single flight\<close>

text \<open>
  C8, as the claim states it, fails, in two ways. With two edges one second apart and
  neither worker scheduled before the second callback, both callbacks find the latch false
  and both workers are started, and the latch is set with two attempts under way. And
  when a worker has cleared the latch on line 230 and not yet switched the LED off on line
  231, a callback finds the latch false and starts a second worker, which sets the latch
  while the first is still in its \<open>finally\<close> block.
\<close>

theorem two_workers_counterexample:
  "map_option observe
     (run_events [Edge 1700000100 18, Edge 1700000101 18, Start 1, Start 2]
        (boot 18 (Some 24) env0)) = Some (True, [], [1, 2], []) \<and>
   map_option observe
     (run_events ([Edge 1700000100 18, Start 1, Launch 1 cap_ok] @ replicate 8 (Work 1)
                  @ [Edge 1700000103 18, Start 2])
        (boot 18 (Some 24) env0)) = Some (True, [], [2], [(1, L231_led)])"
  by (simp add: run_simps del: step.simps(1,4))

text \<open>
  C8, amended. Take any schedule in which no callback runs while a worker thread has been
  started and has not yet run line 173, or has run line 230 and not yet line 231. At every
  instant of it, that is after every prefix \<open>evs\<close> of it, at most one worker thread exists,
  and \<open>is_capturing\<close> is true exactly while a worker is between line 173 and line 230.
\<close>

theorem single_flight_when_orderly:
  "orderly (evs @ rest) (boot tp lp env) \<Longrightarrow>
   \<exists>\<sigma>. run_events evs (boot tp lp env) = Some \<sigma> \<and>
       in_flight \<sigma> \<le> 1 \<and> (is_capturing (ctl \<sigma>) \<longleftrightarrow> latched \<sigma>)"
proof -
  assume o: "orderly (evs @ rest) (boot tp lp env)"
  from orderly_invariants [OF orderly_prefix [OF o] boot_single_flight boot_tracking]
  obtain \<sigma> where r: "run_events evs (boot tp lp env) = Some \<sigma>" and sf: "single_flight \<sigma>"
    by blast
  from sf have "in_flight \<sigma> \<le> 1" "is_capturing (ctl \<sigma>) \<longleftrightarrow> latched \<sigma>"
    by (simp_all add: single_flight_def)
  with r show ?thesis
    by blast
qed

theorem single_flight_when_orderly_witness:
  "orderly ([Edge 1700000100 18, Start 1, Edge 1700000101 18, Launch 1 cap_ok, Work 1]
            @ [Work 1, Work 1]) (boot 18 (Some 24) env0) \<and>
   (\<exists>\<sigma>. run_events [Edge 1700000100 18, Start 1, Edge 1700000101 18, Launch 1 cap_ok, Work 1]
           (boot 18 (Some 24) env0) = Some \<sigma> \<and>
        in_flight \<sigma> \<le> 1 \<and> (is_capturing (ctl \<sigma>) \<longleftrightarrow> latched \<sigma>)) \<and>
   map_option observe
     (run_events [Edge 1700000100 18, Start 1, Edge 1700000101 18, Launch 1 cap_ok, Work 1]
        (boot 18 (Some 24) env0)) = Some (True, [], [], [(1, L196_read)])"
proof -
  have p: "orderly ([Edge 1700000100 18, Start 1, Edge 1700000101 18, Launch 1 cap_ok, Work 1]
            @ [Work 1, Work 1]) (boot 18 (Some 24) env0)"
    by (simp add: run_simps quiet_def del: step.simps(1,4))
  have o: "map_option observe
     (run_events [Edge 1700000100 18, Start 1, Edge 1700000101 18, Launch 1 cap_ok, Work 1]
        (boot 18 (Some 24) env0)) = Some (True, [], [], [(1, L196_read)])"
    by (simp add: run_simps del: step.simps(1,4))
  from single_flight_when_orderly [OF p] p o show ?thesis
    by blast
qed

section \<open>The capture count and the success counter\<close>

text \<open>
  C10, as the claim states it, fails, in two ways. Between line 196 and line 197 of a
  successful attempt \<open>capture_count\<close> is already incremented and
  \<open>stats['successful_captures']\<close> is not yet. And the increments are unlocked reads and
  writes: when two attempts overlap and both read \<open>capture_count\<close> before either writes
  it, one increment is lost, and after both attempts have ended \<open>capture_count\<close> is 1 and
  \<open>successful_captures\<close> is 2.
\<close>

theorem counters_apart_counterexample:
  "map_option counters
     (run_events [Edge 1700000100 18, Start 1, Launch 1 cap_ok, Work 1, Work 1, Work 1]
        (boot 18 (Some 24) env0)) = Some (1, 1, 0, 0) \<and>
   map_option observe
     (run_events
        ([Edge 1700000100 18, Edge 1700000101 18, Start 1, Start 2,
          Launch 1 cap_ok, Launch 2 cap_ok, Work 1, Work 2,
          Work 1, Work 2, Work 1, Work 2] @ replicate 6 (Work 1) @ replicate 6 (Work 2))
        (boot 18 (Some 24) env0)) = Some (False, [], [], []) \<and>
   map_option counters
     (run_events
        ([Edge 1700000100 18, Edge 1700000101 18, Start 1, Start 2,
          Launch 1 cap_ok, Launch 2 cap_ok, Work 1, Work 2,
          Work 1, Work 2, Work 1, Work 2] @ replicate 6 (Work 1) @ replicate 6 (Work 2))
        (boot 18 (Some 24) env0)) = Some (1, 2, 2, 0)"
  by (simp add: run_simps del: step.simps(1,4))

text \<open>
  C10, amended. Both counters are 0 after construction. On every schedule in which no
  callback runs while a worker thread has been started and has not yet run line 173, or
  has run line 230 and not yet line 231, at every instant \<open>capture_count\<close> equals
  \<open>stats['successful_captures']\<close>, except while the worker is between its write of
  line 196 and its write of line 197, where it is one more.
\<close>

theorem capture_count_tracks_successes:
  "orderly (evs @ rest) (boot tp lp env) \<Longrightarrow>
   capture_count (ctl (boot tp lp env)) = 0 \<and>
   successful_captures (stats (ctl (boot tp lp env))) = 0 \<and>
   (\<exists>\<sigma>. run_events evs (boot tp lp env) = Some \<sigma> \<and>
        capture_count (ctl \<sigma>) =
          successful_captures (stats (ctl \<sigma>)) + (if between_increments \<sigma> then 1 else 0))"
proof -
  assume o: "orderly (evs @ rest) (boot tp lp env)"
  from orderly_invariants [OF orderly_prefix [OF o] boot_single_flight boot_tracking]
  obtain \<sigma> where r: "run_events evs (boot tp lp env) = Some \<sigma>" and sf: "single_flight \<sigma>"
    and tr: "tracking \<sigma>"
    by blast
  have z: "capture_count (ctl (boot tp lp env)) = 0"
    "successful_captures (stats (ctl (boot tp lp env))) = 0"
    by (simp_all add: boot_def init_fields)
  from r tracking_counts [OF sf tr] z show ?thesis
    by blast
qed

theorem capture_count_tracks_successes_witness:
  "orderly ([Edge 1700000100 18, Start 1, Launch 1 cap_ok] @ replicate 9 (Work 1))
     (boot 18 (Some 24) env0) \<and>
   map_option counters
     (run_events ([Edge 1700000100 18, Start 1, Launch 1 cap_ok] @ replicate 9 (Work 1))
        (boot 18 (Some 24) env0)) = Some (1, 1, 1, 0) \<and>
   map_option between_increments
     (run_events ([Edge 1700000100 18, Start 1, Launch 1 cap_ok] @ replicate 9 (Work 1))
        (boot 18 (Some 24) env0)) = Some False \<and>
   (\<exists>\<sigma>. run_events ([Edge 1700000100 18, Start 1, Launch 1 cap_ok] @ replicate 9 (Work 1))
           (boot 18 (Some 24) env0) = Some \<sigma> \<and>
        capture_count (ctl \<sigma>) =
          successful_captures (stats (ctl \<sigma>)) + (if between_increments \<sigma> then 1 else 0))"
proof -
  have p: "orderly (([Edge 1700000100 18, Start 1, Launch 1 cap_ok] @ replicate 9 (Work 1)) @ [])
     (boot 18 (Some 24) env0)"
    by (simp add: run_simps quiet_def del: step.simps(1,4))
  have c: "map_option counters
     (run_events ([Edge 1700000100 18, Start 1, Launch 1 cap_ok] @ replicate 9 (Work 1))
        (boot 18 (Some 24) env0)) = Some (1, 1, 1, 0)"
    by (simp add: run_simps del: step.simps(1,4))
  have b: "map_option between_increments
     (run_events ([Edge 1700000100 18, Start 1, Launch 1 cap_ok] @ replicate 9 (Work 1))
        (boot 18 (Some 24) env0)) = Some False"
    by (simp add: run_simps between_increments_def del: step.simps(1,4))
  from p have p': "orderly ([Edge 1700000100 18, Start 1, Launch 1 cap_ok] @ replicate 9 (Work 1))
     (boot 18 (Some 24) env0)"
    by (simp only: append_Nil2)
  from capture_count_tracks_successes [OF p] p' c b show ?thesis
    by blast
qed

end
